theory Spec2Isabelle
  imports Main "HOL-Library.Sublist"
begin

section \<open>Data model of \<^verbatim>\<open>commands/service/check.ts\<close>\<close>

text \<open>
  The GraphQL result types come from \<^verbatim>\<open>apollo-language-server/lib/graphqlTypes\<close>.
  \<^verbatim>\<open>ChangeType\<close> is a string enum; a \<^verbatim>\<open>Change\<close> carries its type, a code and a
  description; the validation window holds two signed offsets in seconds.
\<close>

datatype ChangeType = FAILURE | NOTICE | WARNING

fun ChangeType_str :: "ChangeType \<Rightarrow> string" where
  "ChangeType_str FAILURE = ''FAILURE''"
| "ChangeType_str NOTICE = ''NOTICE''"
| "ChangeType_str WARNING = ''WARNING''"

record Change =
  type :: ChangeType
  code :: string
  description :: string

record ValidationConfig =
  from' :: int
  to' :: int

type_synonym AffectedQuery = string

record DiffToPrevious =
  changes :: "Change list"
  affectedQueries :: "AffectedQuery list"
  validationConfig :: ValidationConfig

text \<open>\<^verbatim>\<open>targetUrl\<close> is nullable in the GraphQL schema: \<open>None\<close> is JavaScript's \<^verbatim>\<open>null\<close>.\<close>

record CheckSchemaResult =
  targetUrl :: "string option"
  diffToPrevious :: DiffToPrevious

text \<open>The argument of \<^verbatim>\<open>formatMarkdown\<close>, as its signature declares it.\<close>

record MarkdownConfig =
  service_name :: string
  tag :: string

text \<open>
  The command's flags and the parts of \<^verbatim>\<open>ApolloConfig\<close> that \<^verbatim>\<open>run\<close> reads. An absent
  flag or setting (\<^verbatim>\<open>undefined\<close>) is \<open>None\<close>.
\<close>

record Flags =
  flags_tag :: "string option"
  flags_validationPeriod :: "string option"
  flags_queryCountThreshold :: "int option"
  flags_queryCountThresholdPercentage :: "int option"
  flags_json :: "bool option"
  flags_markdown :: "bool option"
  flags_frontend :: "string option"

record ApolloConfig =
  config_name :: "string option"
  config_tag :: "string option"
  config_service_name :: string
  config_engine_frontend :: "string option"

type_synonym GraphQLSchema = string
type_synonym IntrospectionSchema = string
type_synonym GitContext = string

record HistoricParameters =
  hp_from :: int
  hp_to :: int
  hp_queryCountThreshold :: "int option"
  hp_queryCountThresholdPercentage :: "int option"

text \<open>The variables object handed to \<^verbatim>\<open>project.engine.checkSchema\<close>.\<close>

record CheckSchemaVariables =
  vars_id :: "string option"
  vars_schema :: IntrospectionSchema
  vars_tag :: "string option"
  vars_gitContext :: "GitContext option"
  vars_frontend :: "string option"
  vars_historicParameters :: "HistoricParameters option"

text \<open>A thrown JavaScript \<^verbatim>\<open>Error\<close> with its message.\<close>

datatype error = Error string

text \<open>
  The collaborators the command calls and does not define: the schema resolver, the git
  context provider, \<^verbatim>\<open>validateHistoricParams\<close> of \<^verbatim>\<open>../../utils\<close>,
  \<^verbatim>\<open>introspectionFromSchema\<close> of the graphql library and the engine's check call. Each one
  that can throw returns a sum, \<open>Inl\<close> the error.
\<close>

record Collaborators =
  resolveSchema :: "string \<Rightarrow> error + GraphQLSchema"
  gitInfo :: "error + GitContext option"
  validateHistoricParams ::
    "string option \<Rightarrow> int option \<Rightarrow> int option \<Rightarrow> error + HistoricParameters option"
  introspectionFromSchema :: "GraphQLSchema \<Rightarrow> IntrospectionSchema"
  checkSchema :: "CheckSchemaVariables \<Rightarrow> error + CheckSchemaResult"

text \<open>\<^verbatim>\<open>chalk.red\<close> and \<^verbatim>\<open>chalk.yellow\<close>: the emphasis wrappers of the chalk library.\<close>

record Chalk =
  red :: "string \<Rightarrow> string"
  yellow :: "string \<Rightarrow> string"

record TasksOutput =
  ctx_gitContext :: "GitContext option"
  ctx_checkSchemaResult :: CheckSchemaResult
  ctx_config :: ApolloConfig
  ctx_shouldOutputJson :: bool
  ctx_shouldOutputMarkdown :: bool

text \<open>
  What the command does to the outside world, in order: calls to the collaborators,
  lines logged, the table handed to \<^verbatim>\<open>heroku-cli-util\<close> (rows and columns as key/value
  lists in the order the source writes them).
\<close>

datatype event =
  ResolveSchema string
| GitInfo
| CheckSchema CheckSchemaVariables
| Log string
| Table "(string \<times> string) list list" "(string \<times> string) list"

text \<open>
  How \<^verbatim>\<open>run\<close> ends: it returns, it calls \<^verbatim>\<open>this.exit()\<close> (the source's "exit with
  failing status"), or an error thrown inside the task propagates.
\<close>

datatype outcome = Returned | Exited | Threw error

section \<open>JavaScript helpers\<close>

text \<open>Truthiness of an optional string: \<^verbatim>\<open>undefined\<close>, \<^verbatim>\<open>null\<close> and \<^verbatim>\<open>""\<close> are falsy.\<close>

definition truthy :: "string option \<Rightarrow> bool" where
  "truthy s = (case s of None \<Rightarrow> False | Some x \<Rightarrow> x \<noteq> [])"

text \<open>\<^verbatim>\<open>a || b\<close> on optional strings.\<close>

definition js_or :: "string option \<Rightarrow> string option \<Rightarrow> string option" where
  "js_or a b = (if truthy a then a else b)"

text \<open>\<^verbatim>\<open>a || "literal"\<close>: the result is always a string.\<close>

definition js_or_str :: "string option \<Rightarrow> string \<Rightarrow> string" where
  "js_or_str a d = (case a of None \<Rightarrow> d | Some x \<Rightarrow> if x \<noteq> [] then x else d)"

text \<open>Decimal rendering of a number that holds an integer, as a template literal does it.\<close>

fun show_nat :: "nat \<Rightarrow> string" where
  "show_nat n =
     (if n < 10 then [''0123456789'' ! n]
      else show_nat (n div 10) @ [''0123456789'' ! (n mod 10)])"

declare show_nat.simps [simp del]

definition show_int :: "int \<Rightarrow> string" where
  "show_int i = (if i < 0 then CHR ''-'' # show_nat (nat (- i)) else show_nat (nat i))"

text \<open>A nullable string inside a template literal: \<^verbatim>\<open>null\<close> prints as the word null.\<close>

definition template_null :: "string option \<Rightarrow> string" where
  "template_null s = (case s of None \<Rightarrow> ''null'' | Some x \<Rightarrow> x)"

text \<open>An absent setting inside a template literal prints as the word undefined.\<close>

definition template_undefined :: "string option \<Rightarrow> string" where
  "template_undefined s = (case s of None \<Rightarrow> ''undefined'' | Some x \<Rightarrow> x)"

definition newline :: char where
  "newline = CHR 0x0A"

section \<open>The moment library, as far as \<^verbatim>\<open>formatMarkdown\<close> uses it\<close>

text \<open>
  \<^verbatim>\<open>formatMarkdown\<close> calls \<^verbatim>\<open>moment()\<close> twice, so it reads the clock twice; and moment's
  \<^verbatim>\<open>diff\<close> asks the local zone for its UTC offset at both moments. The clock readings (in
  milliseconds since the epoch) and the zone's offset (in minutes, at a given instant) are
  inputs of the model.
\<close>

record MomentClock =
  first_now :: int
  second_now :: int
  utcOffset :: "int \<Rightarrow> int"

text \<open>
  A JavaScript \<^verbatim>\<open>Date\<close> holds an instant of at most 8.64e15 milliseconds either side of
  the epoch and is invalid beyond. A moment is such an instant, or \<open>None\<close> for the invalid
  date. Numbers are exact integers, as JavaScript's are up to 2^53.
\<close>

definition date_valid :: "int \<Rightarrow> bool" where
  "date_valid ms = (\<bar>ms\<bar> \<le> 8640000000000000)"

definition moment_now :: "int \<Rightarrow> int option" where
  "moment_now t = (if date_valid t then Some t else None)"

text \<open>\<^verbatim>\<open>add(n, "second")\<close> moves the instant by \<open>1000 * n\<close> milliseconds.\<close>

definition moment_add_seconds :: "int option \<Rightarrow> int \<Rightarrow> int option" where
  "moment_add_seconds m n =
     (case m of
        None \<Rightarrow> None
      | Some t \<Rightarrow> if date_valid (t + 1000 * n) then Some (t + 1000 * n) else None)"

text \<open>moment's \<^verbatim>\<open>absFloor\<close> of a quotient: truncation toward zero.\<close>

definition absFloor_div :: "int \<Rightarrow> int \<Rightarrow> int" where
  "absFloor_div a d = (if a < 0 then - ((- a) div d) else a div d)"

text \<open>
  \<^verbatim>\<open>a.diff(b, "days")\<close> is \<^verbatim>\<open>absFloor((a - b - zoneDelta) / 864e5)\<close>, where
  \<^verbatim>\<open>zoneDelta = (b.utcOffset() - a.utcOffset()) * 6e4\<close>. With an invalid date on either side
  the result is \<^verbatim>\<open>NaN\<close>, here \<open>None\<close>.
\<close>

definition moment_diff_days :: "(int \<Rightarrow> int) \<Rightarrow> int option \<Rightarrow> int option \<Rightarrow> int option" where
  "moment_diff_days offset a b =
     (case a of
        None \<Rightarrow> None
      | Some x \<Rightarrow>
          (case b of
             None \<Rightarrow> None
           | Some y \<Rightarrow>
               (let zoneDelta = (offset y - offset x) * 60000
                in Some (absFloor_div (x - y - zoneDelta) 86400000))))"

text \<open>A number inside a template literal; \<^verbatim>\<open>NaN\<close> prints as the word NaN.\<close>

definition template_number :: "int option \<Rightarrow> string" where
  "template_number d = (case d of None \<Rightarrow> ''NaN'' | Some i \<Rightarrow> show_int i)"

section \<open>\<^verbatim>\<open>formatChange\<close>\<close>

definition formatChange :: "Chalk \<Rightarrow> Change \<Rightarrow> (string \<times> string) list" where
  "formatChange chalk change =
     (let color = (\<lambda>x. x);
          color = (if type change = FAILURE then red chalk else color);
          color = (if type change = WARNING then yellow chalk else color)
      in [(''type'', color (ChangeType_str (type change))),
          (''code'', color (code change)),
          (''description'', color (description change))])"

section \<open>\<^verbatim>\<open>formatMarkdown\<close>\<close>

text \<open>
  The source file holds each pictogram of the template as a fixed run of bytes; they are
  kept as the file has them.
\<close>

definition pict_validated :: string where
  "pict_validated =
     [CHR 0xC3, CHR 0xB0, CHR 0xC5, CHR 0xB8, CHR 0xE2, CHR 0x80, CHR 0x9D,
      CHR 0xE2, CHR 0x80, CHR 0x9E]"

definition pict_compared :: string where
  "pict_compared =
     [CHR 0xC3, CHR 0xB0, CHR 0xC5, CHR 0xB8, CHR 0xE2, CHR 0x80, CHR 0x9D,
      CHR 0xC2, CHR 0xA2]"

definition pict_found :: string where
  "pict_found = [CHR 0xC3, CHR 0xA2, CHR 0xC5, CHR 0x92]"

definition pict_none :: string where
  "pict_none = [CHR 0xC3, CHR 0xA2, CHR 0xC5, CHR 0x93, CHR 0xE2, CHR 0x80, CHR 0xA6]"

definition pict_link :: string where
  "pict_link =
     [CHR 0xC3, CHR 0xB0, CHR 0xC5, CHR 0xB8, CHR 0xE2, CHR 0x80, CHR 0x9D,
      CHR 0xE2, CHR 0x80, CHR 0x94]"

text \<open>
  The constant \<^verbatim>\<open>days\<close>: the negated difference, in days, of the first clock reading moved
  by \<^verbatim>\<open>from\<close> and the second clock reading moved by \<^verbatim>\<open>to\<close>.
\<close>

definition elapsed_days :: "MomentClock \<Rightarrow> ValidationConfig \<Rightarrow> int option" where
  "elapsed_days clock vc =
     map_option uminus
       (moment_diff_days (utcOffset clock)
          (moment_add_seconds (moment_now (first_now clock)) (from' vc))
          (moment_add_seconds (moment_now (second_now clock)) (to' vc)))"

definition formatMarkdown ::
  "MomentClock \<Rightarrow> CheckSchemaResult \<Rightarrow> MarkdownConfig \<Rightarrow> string" where
  "formatMarkdown clock checkSchemaResult config =
     (let days = elapsed_days clock (validationConfig (diffToPrevious checkSchemaResult));
          breakingChanges =
            filter (\<lambda>change. type change = FAILURE) (changes (diffToPrevious checkSchemaResult))
      in [newline]
         @ ''### Apollo Service Check'' @ [newline]
         @ pict_validated @ '' Validated your local schema against schema tag ''
         @ [CHR 0x27] @ tag config @ [CHR 0x27] @ '' on service ''
         @ [CHR 0x27] @ service_name config @ [CHR 0x27] @ ''.'' @ [newline]
         @ pict_compared @ '' Compared **''
         @ show_nat (length (changes (diffToPrevious checkSchemaResult)))
         @ '' schema changes** against operations seen over the **last ''
         @ (if days = Some 1 then ''day'' else template_number days @ '' days'')
         @ ''**.'' @ [newline]
         @ (if length breakingChanges > 0
            then pict_found @ '' Found **''
                 @ show_nat (length (filter (\<lambda>change. type change = FAILURE)
                                       (changes (diffToPrevious checkSchemaResult))))
                 @ '' breaking changes** that would affect **''
                 @ show_nat (length (affectedQueries (diffToPrevious checkSchemaResult)))
                 @ '' operations**''
            else pict_none @ '' Found **no breaking changes**.'')
         @ [newline]
         @ [newline]
         @ pict_link @ '' [View your service check details](''
         @ template_null (targetUrl checkSchemaResult) @ '').'' @ [newline])"

section \<open>\<^verbatim>\<open>JSON.stringify(value, null, 2)\<close>\<close>

datatype json =
  JNull
| JNumber int
| JString string
| JArray "json list"
| JObject "(string \<times> json) list"

definition hex_digit :: "nat \<Rightarrow> char" where
  "hex_digit n = ''0123456789abcdef'' ! (n mod 16)"

text \<open>One character inside a quoted JSON string, after ECMAScript's QuoteJSONString.\<close>

definition quote_char :: "char \<Rightarrow> string" where
  "quote_char c =
     (if c = CHR 0x08 then [CHR 0x5C, CHR ''b'']
      else if c = CHR 0x09 then [CHR 0x5C, CHR ''t'']
      else if c = CHR 0x0A then [CHR 0x5C, CHR ''n'']
      else if c = CHR 0x0C then [CHR 0x5C, CHR ''f'']
      else if c = CHR 0x0D then [CHR 0x5C, CHR ''r'']
      else if c = CHR 0x22 then [CHR 0x5C, CHR 0x22]
      else if c = CHR 0x5C then [CHR 0x5C, CHR 0x5C]
      else if (of_char c :: nat) < 32
        then [CHR 0x5C, CHR ''u'', CHR ''0'', CHR ''0'',
              hex_digit (of_char c div 16), hex_digit (of_char c)]
      else [c])"

definition quote_json_string :: "string \<Rightarrow> string" where
  "quote_json_string s = [CHR 0x22] @ concat (map quote_char s) @ [CHR 0x22]"

text \<open>Elements joined by a comma, a line break and the current indentation.\<close>

fun join_lines :: "string \<Rightarrow> string list \<Rightarrow> string" where
  "join_lines ind [] = []"
| "join_lines ind [x] = x"
| "join_lines ind (x # y # ys) = x @ '','' @ [newline] @ ind @ join_lines ind (y # ys)"

fun stringify :: "string \<Rightarrow> json \<Rightarrow> string" where
  "stringify ind JNull = ''null''"
| "stringify ind (JNumber n) = show_int n"
| "stringify ind (JString s) = quote_json_string s"
| "stringify ind (JArray vs) =
     (if vs = [] then ''[]''
      else ''['' @ [newline] @ (ind @ ''  '')
           @ join_lines (ind @ ''  '') (map (stringify (ind @ ''  '')) vs)
           @ [newline] @ ind @ '']'')"
| "stringify ind (JObject kvs) =
     (if kvs = [] then ''{}''
      else ''{'' @ [newline] @ (ind @ ''  '')
           @ join_lines (ind @ ''  '')
               (map (\<lambda>kv. quote_json_string (fst kv) @ '': '' @ stringify (ind @ ''  '') (snd kv)) kvs)
           @ [newline] @ ind @ ''}'')"

definition JSON_stringify :: "json \<Rightarrow> string" where
  "JSON_stringify v = stringify [] v"

text \<open>The object literal \<^verbatim>\<open>{ targetUrl, changes, validationConfig }\<close> as a JSON value.\<close>

definition change_json :: "Change \<Rightarrow> json" where
  "change_json c =
     JObject [(''type'', JString (ChangeType_str (type c))),
              (''code'', JString (code c)),
              (''description'', JString (description c))]"

definition validationConfig_json :: "ValidationConfig \<Rightarrow> json" where
  "validationConfig_json vc =
     JObject [(''from'', JNumber (from' vc)), (''to'', JNumber (to' vc))]"

definition result_json :: "string option \<Rightarrow> Change list \<Rightarrow> ValidationConfig \<Rightarrow> json" where
  "result_json url cs vc =
     JObject [(''targetUrl'', (case url of None \<Rightarrow> JNull | Some u \<Rightarrow> JString u)),
              (''changes'', JArray (map change_json cs)),
              (''validationConfig'', validationConfig_json vc)]"

section \<open>\<^verbatim>\<open>ServiceCheck.run\<close>\<close>

text \<open>
  The task given to \<^verbatim>\<open>runTasks\<close>. It returns the calls made so far together with either
  the error that ended it or the filled context.
\<close>

definition task ::
  "Collaborators \<Rightarrow> ApolloConfig \<Rightarrow> Flags \<Rightarrow> event list \<times> (error + TasksOutput)" where
  "task env cfg flags =
     (if \<not> truthy (config_name cfg)
      then ([], Inl (Error ''No service found to link to Engine''))
      else
        let tag = js_or_str (js_or (flags_tag flags) (config_tag cfg)) ''current'' in
        case resolveSchema env tag of
          Inl e \<Rightarrow> ([ResolveSchema tag], Inl e)
        | Inr schema \<Rightarrow>
            (case gitInfo env of
               Inl e \<Rightarrow> ([ResolveSchema tag, GitInfo], Inl e)
             | Inr git \<Rightarrow>
                 (case validateHistoricParams env (flags_validationPeriod flags)
                         (flags_queryCountThreshold flags)
                         (flags_queryCountThresholdPercentage flags) of
                    Inl e \<Rightarrow> ([ResolveSchema tag, GitInfo], Inl e)
                  | Inr historicParameters \<Rightarrow>
                      (let vars = \<lparr>vars_id = config_name cfg,
                                    vars_schema = introspectionFromSchema env schema,
                                    vars_tag = flags_tag flags,
                                    vars_gitContext = git,
                                    vars_frontend =
                                      js_or (flags_frontend flags) (config_engine_frontend cfg),
                                    vars_historicParameters = historicParameters\<rparr>
                       in case checkSchema env vars of
                            Inl e \<Rightarrow> ([ResolveSchema tag, GitInfo, CheckSchema vars], Inl e)
                          | Inr result \<Rightarrow>
                              ([ResolveSchema tag, GitInfo, CheckSchema vars],
                               Inr \<lparr>ctx_gitContext = git,
                                    ctx_checkSchemaResult = result,
                                    ctx_config = cfg,
                                    ctx_shouldOutputJson = (flags_json flags = Some True),
                                    ctx_shouldOutputMarkdown = (flags_markdown flags = Some True)\<rparr>)))))"

definition table_columns :: "(string \<times> string) list" where
  "table_columns = [(''type'', ''Change''), (''code'', ''Code''), (''description'', ''Description'')]"

text \<open>
  What \<^verbatim>\<open>run\<close> does with the filled context: the events it adds and how it ends.
\<close>

definition report :: "Chalk \<Rightarrow> MomentClock \<Rightarrow> TasksOutput \<Rightarrow> event list \<times> outcome" where
  "report chalk clock out =
     (let url = targetUrl (ctx_checkSchemaResult out);
          cs = changes (diffToPrevious (ctx_checkSchemaResult out));
          vc = validationConfig (diffToPrevious (ctx_checkSchemaResult out));
          failures = filter (\<lambda>c. type c = FAILURE) cs
      in if ctx_shouldOutputJson out
         then ([Log (JSON_stringify (result_json url cs vc))], Returned)
         else if ctx_shouldOutputMarkdown out
         then ([Log (formatMarkdown clock (ctx_checkSchemaResult out)
                       \<lparr>service_name = config_service_name (ctx_config out),
                        tag = template_undefined (config_tag (ctx_config out))\<rparr>)], Returned)
         else if length cs = 0
         then ([Log ([newline] @ ''No changes present between schemas'' @ [newline])], Returned)
         else ([Log [newline], Table (map (formatChange chalk) cs) table_columns, Log [newline]]
               @ (if truthy url then [Log (''View full details at: '' @ template_null url)] else []),
               if length failures > 0 then Exited else Returned))"

definition run ::
  "Collaborators \<Rightarrow> Chalk \<Rightarrow> MomentClock \<Rightarrow> ApolloConfig \<Rightarrow> Flags \<Rightarrow> event list \<times> outcome" where
  "run env chalk clock cfg flags =
     (case task env cfg flags of
        (evs, Inl e) \<Rightarrow> (evs, Threw e)
      | (evs, Inr out) \<Rightarrow> (case report chalk clock out of (evs', res) \<Rightarrow> (evs @ evs', res)))"

text \<open>
  Modelled from the spec: \<^verbatim>\<open>this.exit()\<close> and \<^verbatim>\<open>runTasks\<close> are inherited from
  \<^verbatim>\<open>ProjectCommand\<close> (\<^verbatim>\<open>../../Command\<close>), which is not in this source file. After the
  spec and the source's own comment, \<^verbatim>\<open>this.exit()\<close> ends the process with the failing
  (non-zero) status, an error thrown inside the task is fatal and non-zero too, and a
  normal return is status 0.
\<close>

definition exit_status :: "outcome \<Rightarrow> nat" where
  "exit_status res = (case res of Returned \<Rightarrow> 0 | Exited \<Rightarrow> 1 | Threw e \<Rightarrow> 1)"

definition breakingCount :: "CheckSchemaResult \<Rightarrow> nat" where
  "breakingCount r = length (filter (\<lambda>c. type c = FAILURE) (changes (diffToPrevious r)))"

section \<open>Reading a JSON document\<close>

text \<open>
  A reader for the JSON texts that \<^verbatim>\<open>JSON.stringify\<close> writes for null, integers, strings,
  arrays and objects. It accepts JSON's grammar for these values and nothing outside it.
\<close>

text \<open>JSON whitespace, digits and the value of a run of digits.\<close>

definition is_ws :: "char \<Rightarrow> bool" where
  "is_ws c = (c = CHR '' '' \<or> c = CHR 0x09 \<or> c = CHR 0x0A \<or> c = CHR 0x0D)"

definition skip_ws :: "string \<Rightarrow> string" where
  "skip_ws s = dropWhile is_ws s"

definition is_digit :: "char \<Rightarrow> bool" where
  "is_digit c = (48 \<le> (of_char c :: nat) \<and> (of_char c :: nat) \<le> 57)"

definition digit_val :: "char \<Rightarrow> nat" where
  "digit_val c = of_char c - 48"

definition read_nat :: "string \<Rightarrow> nat" where
  "read_nat ds = foldl (\<lambda>a c. 10 * a + digit_val c) 0 ds"

text \<open>
  A JSON number without fraction or exponent: an optional minus sign and digits with no
  leading zero. A fraction or an exponent is refused.
\<close>

definition parse_number :: "string \<Rightarrow> (int \<times> string) option" where
  "parse_number s =
     (let neg = (s \<noteq> [] \<and> hd s = CHR ''-'');
          s1 = (if neg then tl s else s);
          ds = takeWhile is_digit s1;
          rest = dropWhile is_digit s1
      in if ds = [] then None
         else if hd ds = CHR ''0'' \<and> 1 < length ds then None
         else if rest \<noteq> [] \<and> hd rest \<in> set ''.eE'' then None
         else Some (if neg then - int (read_nat ds) else int (read_nat ds), rest))"

text \<open>The escapes of a JSON string. A \<^verbatim>\<open>\\u\<close> escape beyond one byte is refused.\<close>

definition hex_val :: "char \<Rightarrow> nat option" where
  "hex_val c =
     (let n = (of_char c :: nat)
      in if 48 \<le> n \<and> n \<le> 57 then Some (n - 48)
         else if 97 \<le> n \<and> n \<le> 102 then Some (n - 87)
         else if 65 \<le> n \<and> n \<le> 70 then Some (n - 55)
         else None)"

definition unicode_escape :: "char \<Rightarrow> char \<Rightarrow> char \<Rightarrow> char \<Rightarrow> char option" where
  "unicode_escape h1 h2 h3 h4 =
     (case (hex_val h1, hex_val h2, hex_val h3, hex_val h4) of
        (Some a, Some b, Some c, Some d) \<Rightarrow>
          (let n = ((a * 16 + b) * 16 + c) * 16 + d
           in if n < 256 then Some (char_of n) else None)
      | _ \<Rightarrow> None)"

definition simple_escape :: "char \<Rightarrow> char option" where
  "simple_escape e =
     (if e = CHR 0x22 then Some (CHR 0x22)
      else if e = CHR 0x5C then Some (CHR 0x5C)
      else if e = CHR ''/'' then Some (CHR ''/'')
      else if e = CHR ''b'' then Some (CHR 0x08)
      else if e = CHR ''f'' then Some (CHR 0x0C)
      else if e = CHR ''n'' then Some (CHR 0x0A)
      else if e = CHR ''r'' then Some (CHR 0x0D)
      else if e = CHR ''t'' then Some (CHR 0x09)
      else None)"

text \<open>The characters of a string after its opening quote, up to the closing quote.\<close>

fun parse_chars :: "string \<Rightarrow> (string \<times> string) option" where
  "parse_chars [] = None"
| "parse_chars (c # cs) =
     (if c = CHR 0x22 then Some ([], cs)
      else if c = CHR 0x5C then
        (case cs of
           [] \<Rightarrow> None
         | e # cs1 \<Rightarrow>
             if e = CHR ''u'' then
               (case cs1 of
                  h1 # h2 # h3 # h4 # cs2 \<Rightarrow>
                    (case unicode_escape h1 h2 h3 h4 of
                       None \<Rightarrow> None
                     | Some x \<Rightarrow>
                         (case parse_chars cs2 of
                            None \<Rightarrow> None
                          | Some (s, rest) \<Rightarrow> Some (x # s, rest)))
                | _ \<Rightarrow> None)
             else
               (case simple_escape e of
                  None \<Rightarrow> None
                | Some x \<Rightarrow>
                    (case parse_chars cs1 of
                       None \<Rightarrow> None
                     | Some (s, rest) \<Rightarrow> Some (x # s, rest))))
      else if (of_char c :: nat) < 32 then None
      else (case parse_chars cs of
              None \<Rightarrow> None
            | Some (s, rest) \<Rightarrow> Some (c # s, rest)))"

text \<open>
  Values, the elements of an array after its bracket and the members of an object after
  its brace. Every call spends one unit of fuel; without fuel the reader gives up.
\<close>

fun parse_value :: "nat \<Rightarrow> string \<Rightarrow> (json \<times> string) option"
  and parse_elements :: "nat \<Rightarrow> string \<Rightarrow> (json list \<times> string) option"
  and parse_members :: "nat \<Rightarrow> string \<Rightarrow> ((string \<times> json) list \<times> string) option" where
  "parse_value 0 s = None"
| "parse_value (Suc f) s =
     (case skip_ws s of
        [] \<Rightarrow> None
      | c # cs \<Rightarrow>
          if c = CHR ''n'' then
            (if take 3 cs = ''ull'' then Some (JNull, drop 3 cs) else None)
          else if c = CHR 0x22 then
            (case parse_chars cs of
               None \<Rightarrow> None
             | Some (str, rest) \<Rightarrow> Some (JString str, rest))
          else if c = CHR ''['' then
            (if skip_ws cs \<noteq> [] \<and> hd (skip_ws cs) = CHR '']''
             then Some (JArray [], tl (skip_ws cs))
             else (case parse_elements f cs of
                     None \<Rightarrow> None
                   | Some (vs, rest) \<Rightarrow> Some (JArray vs, rest)))
          else if c = CHR ''{'' then
            (if skip_ws cs \<noteq> [] \<and> hd (skip_ws cs) = CHR ''}''
             then Some (JObject [], tl (skip_ws cs))
             else (case parse_members f cs of
                     None \<Rightarrow> None
                   | Some (kvs, rest) \<Rightarrow> Some (JObject kvs, rest)))
          else (case parse_number (c # cs) of
                  None \<Rightarrow> None
                | Some (n, rest) \<Rightarrow> Some (JNumber n, rest)))"
| "parse_elements 0 s = None"
| "parse_elements (Suc f) s =
     (case parse_value f s of
        None \<Rightarrow> None
      | Some (v, rest) \<Rightarrow>
          (case skip_ws rest of
             [] \<Rightarrow> None
           | c # rest1 \<Rightarrow>
               if c = CHR '','' then
                 (case parse_elements f rest1 of
                    None \<Rightarrow> None
                  | Some (vs, rest2) \<Rightarrow> Some (v # vs, rest2))
               else if c = CHR '']'' then Some ([v], rest1)
               else None))"
| "parse_members 0 s = None"
| "parse_members (Suc f) s =
     (case skip_ws s of
        [] \<Rightarrow> None
      | q # s1 \<Rightarrow>
          if q \<noteq> CHR 0x22 then None
          else
            (case parse_chars s1 of
               None \<Rightarrow> None
             | Some (k, s2) \<Rightarrow>
                 (case skip_ws s2 of
                    [] \<Rightarrow> None
                  | colon # s3 \<Rightarrow>
                      if colon \<noteq> CHR '':'' then None
                      else
                        (case parse_value f s3 of
                           None \<Rightarrow> None
                         | Some (v, rest) \<Rightarrow>
                             (case skip_ws rest of
                                [] \<Rightarrow> None
                              | c # rest1 \<Rightarrow>
                                  if c = CHR '','' then
                                    (case parse_members f rest1 of
                                       None \<Rightarrow> None
                                     | Some (kvs, rest2) \<Rightarrow> Some ((k, v) # kvs, rest2))
                                  else if c = CHR ''}'' then Some ([(k, v)], rest1)
                                  else None)))))"

text \<open>A whole document: one value, then whitespace only.\<close>

definition JSON_parse :: "nat \<Rightarrow> string \<Rightarrow> json option" where
  "JSON_parse fuel s =
     (case parse_value fuel s of
        None \<Rightarrow> None
      | Some (v, rest) \<Rightarrow> if skip_ws rest = [] then Some v else None)"

text \<open>Fuel that is enough to read a value back.\<close>

fun parse_fuel :: "json \<Rightarrow> nat" where
  "parse_fuel JNull = 1"
| "parse_fuel (JNumber n) = 1"
| "parse_fuel (JString s) = 1"
| "parse_fuel (JArray vs) = Suc (sum_list (map parse_fuel vs) + length vs)"
| "parse_fuel (JObject kvs) = Suc (sum_list (map (\<lambda>kv. parse_fuel (snd kv)) kvs) + length kvs)"

text \<open>What may follow a value inside the written document: nothing, a comma or a line break.\<close>

definition ok_rest :: "string \<Rightarrow> bool" where
  "ok_rest rest = (rest = [] \<or> hd rest = CHR '','' \<or> hd rest = newline)"


text \<open>Reading the fields of the check result out of a JSON value.\<close>

definition json_keys :: "json \<Rightarrow> string list" where
  "json_keys v = (case v of JObject kvs \<Rightarrow> map fst kvs | _ \<Rightarrow> [])"

definition json_field :: "string \<Rightarrow> json \<Rightarrow> json option" where
  "json_field k v = (case v of JObject kvs \<Rightarrow> map_of kvs k | _ \<Rightarrow> None)"

definition ChangeType_of_str :: "string \<Rightarrow> ChangeType option" where
  "ChangeType_of_str s =
     (if s = ''FAILURE'' then Some FAILURE
      else if s = ''NOTICE'' then Some NOTICE
      else if s = ''WARNING'' then Some WARNING
      else None)"

definition decode_change :: "json \<Rightarrow> Change option" where
  "decode_change v =
     (case (json_field ''type'' v, json_field ''code'' v, json_field ''description'' v) of
        (Some (JString t), Some (JString c), Some (JString d)) \<Rightarrow>
          (case ChangeType_of_str t of
             None \<Rightarrow> None
           | Some ty \<Rightarrow> Some \<lparr>type = ty, code = c, description = d\<rparr>)
      | _ \<Rightarrow> None)"

fun decode_all :: "json list \<Rightarrow> Change list option" where
  "decode_all [] = Some []"
| "decode_all (v # vs) =
     (case decode_change v of
        None \<Rightarrow> None
      | Some c \<Rightarrow> (case decode_all vs of None \<Rightarrow> None | Some cs \<Rightarrow> Some (c # cs)))"

definition decode_window :: "json \<Rightarrow> ValidationConfig option" where
  "decode_window v =
     (case (json_field ''from'' v, json_field ''to'' v) of
        (Some (JNumber a), Some (JNumber b)) \<Rightarrow> Some \<lparr>from' = a, to' = b\<rparr>
      | _ \<Rightarrow> None)"

definition decode_result ::
  "json \<Rightarrow> (string option \<times> Change list \<times> ValidationConfig) option" where
  "decode_result v =
     (case (json_field ''targetUrl'' v, json_field ''changes'' v,
            json_field ''validationConfig'' v) of
        (Some u, Some (JArray vs), Some w) \<Rightarrow>
          (case (case u of JNull \<Rightarrow> Some None | JString s \<Rightarrow> Some (Some s) | _ \<Rightarrow> None,
                 decode_all vs, decode_window w) of
             (Some url, Some cs, Some vc) \<Rightarrow> Some (url, cs, vc)
           | _ \<Rightarrow> None)
      | _ \<Rightarrow> None)"


section \<open>Observations and example inputs\<close>

text \<open>The events that write to the caller's output: logged lines and the table.\<close>

definition is_output :: "event \<Rightarrow> bool" where
  "is_output ev = (case ev of Log s \<Rightarrow> True | Table rows cols \<Rightarrow> True | _ \<Rightarrow> False)"

text \<open>Concrete inputs, used where a statement is evaluated.\<close>

definition example_result :: "string option \<Rightarrow> Change list \<Rightarrow> CheckSchemaResult" where
  "example_result url cs =
     \<lparr>targetUrl = url,
      diffToPrevious = \<lparr>changes = cs, affectedQueries = [''Q1'', ''Q2'', ''Q3''],
                        validationConfig = \<lparr>from' = - 604800, to' = 0\<rparr>\<rparr>\<rparr>"

definition example_url :: "string option" where
  "example_url = Some ''https://engine.example/check/1''"

definition example_env ::
  "(error + HistoricParameters option) \<Rightarrow> Change list \<Rightarrow> Collaborators" where
  "example_env hv cs =
     \<lparr>resolveSchema = (\<lambda>t. Inr ''type Query { a: Int }''),
      gitInfo = Inr None,
      validateHistoricParams = (\<lambda>p t q. hv),
      introspectionFromSchema = (\<lambda>s. s),
      checkSchema = (\<lambda>v. Inr (example_result example_url cs))\<rparr>"

definition example_config :: "string option \<Rightarrow> ApolloConfig" where
  "example_config nm =
     \<lparr>config_name = nm, config_tag = None,
      config_service_name = ''my-service'', config_engine_frontend = None\<rparr>"

definition example_flags :: "bool option \<Rightarrow> bool option \<Rightarrow> Flags" where
  "example_flags j m =
     \<lparr>flags_tag = None, flags_validationPeriod = None, flags_queryCountThreshold = None,
      flags_queryCountThresholdPercentage = None, flags_json = j, flags_markdown = m,
      flags_frontend = None\<rparr>"

text \<open>The example configuration and flags with a given configured tag and tag flag.\<close>

definition tagged_config :: "string option \<Rightarrow> ApolloConfig" where
  "tagged_config ct = (example_config (Some ''my-service'')) \<lparr>config_tag := ct\<rparr>"

definition tagged_flags :: "string option \<Rightarrow> Flags" where
  "tagged_flags ft = (example_flags None None) \<lparr>flags_tag := ft\<rparr>"

definition example_chalk :: Chalk where
  "example_chalk = \<lparr>red = (\<lambda>s. ''<red>'' @ s), yellow = (\<lambda>s. ''<yellow>'' @ s)\<rparr>"

definition failure_change :: Change where
  "failure_change =
     \<lparr>type = FAILURE, code = ''FIELD_REMOVED'', description = ''field removed''\<rparr>"

definition warning_change :: Change where
  "warning_change =
     \<lparr>type = WARNING, code = ''ARG_CHANGED'', description = ''argument changed''\<rparr>"

definition notice_change :: Change where
  "notice_change =
     \<lparr>type = NOTICE, code = ''FIELD_ADDED'', description = ''field added''\<rparr>"

text \<open>A clock in a zone without offset changes, both readings in the same millisecond.\<close>

definition example_clock :: MomentClock where
  "example_clock =
     \<lparr>first_now = 1700000000000, second_now = 1700000000000, utcOffset = (\<lambda>t. 0)\<rparr>"

text \<open>
  A clock one millisecond further at the second reading, in a zone that went from an
  offset of 120 minutes back to 60 minutes three days before.
\<close>

definition example_dst_clock :: MomentClock where
  "example_dst_clock =
     \<lparr>first_now = 1700000000000, second_now = 1700000000001,
      utcOffset = (\<lambda>t. if t < 1699740800000 then 120 else 60)\<rparr>"

definition example_markdown_config :: MarkdownConfig where
  "example_markdown_config = \<lparr>service_name = ''my-service'', tag = ''current''\<rparr>"

definition short_window_result :: CheckSchemaResult where
  "short_window_result =
     \<lparr>targetUrl = example_url,
      diffToPrevious = \<lparr>changes = [failure_change], affectedQueries = [''Q1'', ''Q2'', ''Q3''],
                        validationConfig = \<lparr>from' = - 100, to' = 0\<rparr>\<rparr>\<rparr>"


text \<open>A result whose window lies beyond the range of a \<^verbatim>\<open>Date\<close>.\<close>

definition far_window_result :: CheckSchemaResult where
  "far_window_result =
     \<lparr>targetUrl = example_url,
      diffToPrevious = \<lparr>changes = [failure_change], affectedQueries = [''Q1'', ''Q2'', ''Q3''],
                        validationConfig = \<lparr>from' = 8700000000000, to' = 8700000000000\<rparr>\<rparr>\<rparr>"

text \<open>
  The elapsed-day count in the spec's words: the absolute span of the window divided by
  86400, rounded up.
\<close>

definition spec_days :: "ValidationConfig \<Rightarrow> int" where
  "spec_days vc = - ((- \<bar>to' vc - from' vc\<bar>) div 86400)"

section \<open>Helper lemmas about the task\<close>

lemma task_no_output:
  "task env cfg flags = (evs, res) \<Longrightarrow> filter is_output evs = []"
  by (auto simp: task_def Let_def is_output_def split: if_splits sum.splits)

lemma formatChange_row:
  "formatChange chalk c =
     (case type c of
        FAILURE \<Rightarrow> [(''type'', red chalk ''FAILURE''), (''code'', red chalk (code c)),
                    (''description'', red chalk (description c))]
      | WARNING \<Rightarrow> [(''type'', yellow chalk ''WARNING''), (''code'', yellow chalk (code c)),
                    (''description'', yellow chalk (description c))]
      | NOTICE \<Rightarrow> [(''type'', ''NOTICE''), (''code'', code c), (''description'', description c)])"
  by (cases "type c") (simp_all add: formatChange_def Let_def)

lemma example_task:
  "task (example_env (Inr None) cs) (example_config (Some ''my-service'')) (example_flags j m)
     = ([ResolveSchema ''current'', GitInfo,
         CheckSchema \<lparr>vars_id = Some ''my-service'', vars_schema = ''type Query { a: Int }'',
                      vars_tag = None, vars_gitContext = None, vars_frontend = None,
                      vars_historicParameters = None\<rparr>],
        Inr \<lparr>ctx_gitContext = None, ctx_checkSchemaResult = example_result example_url cs,
             ctx_config = example_config (Some ''my-service''),
             ctx_shouldOutputJson = (j = Some True),
             ctx_shouldOutputMarkdown = (m = Some True)\<rparr>)"
  by (simp add: task_def example_env_def example_config_def example_flags_def truthy_def
        js_or_def js_or_str_def)

section \<open>Exit status\<close>

text \<open>
  In table mode the exit status is the failing one exactly when some change has type
  FAILURE.
\<close>

lemma table_mode_exit_status:
  assumes "task env cfg flags = (evs, Inr out)"
    and "\<not> ctx_shouldOutputJson out" and "\<not> ctx_shouldOutputMarkdown out"
  shows "exit_status (snd (run env chalk clock cfg flags)) \<noteq> 0
           \<longleftrightarrow> breakingCount (ctx_checkSchemaResult out) > 0"
  using assms by (auto simp: run_def report_def Let_def exit_status_def breakingCount_def)

text \<open>
  C1. The spec asks for a non-zero exit status whenever a change has type FAILURE, in
  every output mode. In JSON mode and in Markdown mode \<^verbatim>\<open>run\<close> returns right after
  logging the document and never reaches the exit: with one FAILURE change
  (breakingCount 1) the run returns normally, status 0.
\<close>

theorem document_modes_failure_returns:
  "breakingCount (example_result example_url [failure_change]) = 1
   \<and> snd (run (example_env (Inr None) [failure_change]) example_chalk example_clock
             (example_config (Some ''my-service'')) (example_flags (Some True) None)) = Returned
   \<and> exit_status (snd (run (example_env (Inr None) [failure_change]) example_chalk example_clock
             (example_config (Some ''my-service'')) (example_flags (Some True) None))) = 0
   \<and> snd (run (example_env (Inr None) [failure_change]) example_chalk example_clock
             (example_config (Some ''my-service'')) (example_flags None (Some True))) = Returned
   \<and> exit_status (snd (run (example_env (Inr None) [failure_change]) example_chalk example_clock
             (example_config (Some ''my-service'')) (example_flags None (Some True)))) = 0"
  by (simp add: run_def example_task report_def exit_status_def breakingCount_def
        example_result_def failure_change_def)

section \<open>Service identity\<close>

text \<open>
  C9. When the configuration has no service name (\<^verbatim>\<open>config.name\<close> is absent or empty),
  the run ends with the error "No service found to link to Engine" and has made no call at
  all: the schema is not resolved and the check service is not contacted.
\<close>

theorem missing_service_identity:
  "\<not> truthy (config_name cfg) \<Longrightarrow>
     run env chalk clock cfg flags = ([], Threw (Error ''No service found to link to Engine''))"
  by (simp add: run_def task_def)

theorem missing_service_identity_witness:
  "\<not> truthy (config_name (example_config None))
   \<and> run (example_env (Inr None) [failure_change]) example_chalk example_clock (example_config None)
         (example_flags None None)
       = ([], Threw (Error ''No service found to link to Engine''))"
  using missing_service_identity
    [of "example_config None" "example_env (Inr None) [failure_change]" example_chalk example_clock
        "example_flags None None"]
  by (simp add: truthy_def example_config_def)

section \<open>Order of validation and the check call\<close>

text \<open>
  C2. When \<^verbatim>\<open>validateHistoricParams\<close> throws for the given flags, no run ever calls the
  check service and every run ends with a thrown error; when the steps before validation
  succeed, the run ends with the validation error itself, after the schema resolution and
  the git lookup and nothing else.
\<close>

theorem validation_error_aborts_before_check:
  assumes "validateHistoricParams env (flags_validationPeriod flags)
             (flags_queryCountThreshold flags) (flags_queryCountThresholdPercentage flags) = Inl e"
  shows "(\<forall>vars. CheckSchema vars \<notin> set (fst (run env chalk clock cfg flags)))
         \<and> (\<exists>e'. snd (run env chalk clock cfg flags) = Threw e')
         \<and> (\<forall>tg schema git. truthy (config_name cfg) \<longrightarrow>
               tg = js_or_str (js_or (flags_tag flags) (config_tag cfg)) ''current'' \<longrightarrow>
               resolveSchema env tg = Inr schema \<longrightarrow> gitInfo env = Inr git \<longrightarrow>
               run env chalk clock cfg flags = ([ResolveSchema tg, GitInfo], Threw e))"
  using assms
  by (auto simp: run_def task_def Let_def split: sum.splits)

theorem validation_error_aborts_before_check_witness:
  "validateHistoricParams (example_env (Inl (Error ''Invalid duration'')) [failure_change])
     (flags_validationPeriod (example_flags None None))
     (flags_queryCountThreshold (example_flags None None))
     (flags_queryCountThresholdPercentage (example_flags None None))
     = Inl (Error ''Invalid duration'')
   \<and> truthy (config_name (example_config (Some ''my-service'')))
   \<and> resolveSchema (example_env (Inl (Error ''Invalid duration'')) [failure_change]) ''current''
       = Inr ''type Query { a: Int }''
   \<and> gitInfo (example_env (Inl (Error ''Invalid duration'')) [failure_change]) = Inr None
   \<and> run (example_env (Inl (Error ''Invalid duration'')) [failure_change]) example_chalk example_clock
         (example_config (Some ''my-service'')) (example_flags None None)
       = ([ResolveSchema ''current'', GitInfo], Threw (Error ''Invalid duration''))"
  using validation_error_aborts_before_check
    [of "example_env (Inl (Error ''Invalid duration'')) [failure_change]"
        "example_flags None None" "Error ''Invalid duration''" example_chalk example_clock
        "example_config (Some ''my-service'')"]
  by (simp add: example_env_def example_config_def example_flags_def truthy_def
        js_or_def js_or_str_def)

section \<open>The tag\<close>

text \<open>
  C10. On a run that reaches the check call, the schema is resolved with the defaulted tag:
  the tag flag when it is a non-empty string, else the configured tag when that is a
  non-empty string, else the literal "current". The check call receives the raw tag flag.
  With the tag flag absent the check call's tag is absent too, and differs from the tag
  the schema was resolved with.
\<close>

theorem tag_default_not_forwarded:
  assumes "config_name cfg = Some nm" and "nm \<noteq> []"
    and "tg = (case flags_tag flags of
                 Some t \<Rightarrow>
                   if t \<noteq> [] then t
                   else (case config_tag cfg of
                           Some u \<Rightarrow> if u \<noteq> [] then u else ''current''
                         | None \<Rightarrow> ''current'')
               | None \<Rightarrow>
                   (case config_tag cfg of
                      Some u \<Rightarrow> if u \<noteq> [] then u else ''current''
                    | None \<Rightarrow> ''current''))"
    and "resolveSchema env tg = Inr schema"
    and "gitInfo env = Inr git"
    and "validateHistoricParams env (flags_validationPeriod flags)
           (flags_queryCountThreshold flags) (flags_queryCountThresholdPercentage flags) = Inr hp"
  shows "(\<exists>vars rest.
            fst (run env chalk clock cfg flags)
              = ResolveSchema tg # GitInfo # CheckSchema vars # rest
            \<and> vars_tag vars = flags_tag flags
            \<and> (flags_tag flags = None \<longrightarrow> vars_tag vars = None \<and> vars_tag vars \<noteq> Some tg))
         \<and> (\<forall>vars. CheckSchema vars \<in> set (fst (run env chalk clock cfg flags))
               \<longrightarrow> vars_tag vars = flags_tag flags)"
proof -
  have name: "truthy (config_name cfg)"
    using assms(1,2) by (simp add: truthy_def)
  have tg: "js_or_str (js_or (flags_tag flags) (config_tag cfg)) ''current'' = tg"
    unfolding assms(3)
    by (simp add: js_or_str_def js_or_def truthy_def split: option.splits)
  show ?thesis
    using name tg assms(4-6)
    apply (intro conjI)
    subgoal by (auto simp: run_def task_def report_def Let_def split: sum.splits prod.splits)
    subgoal
      by (auto simp: run_def task_def report_def Let_def split: sum.splits prod.splits if_splits)
    done
qed

theorem tag_default_not_forwarded_witness:
  "config_name (tagged_config None) = Some ''my-service'' \<and> ''my-service'' \<noteq> []
   \<and> resolveSchema (example_env (Inr None) [failure_change]) ''current''
       = Inr ''type Query { a: Int }''
   \<and> resolveSchema (example_env (Inr None) [failure_change]) ''staging''
       = Inr ''type Query { a: Int }''
   \<and> resolveSchema (example_env (Inr None) [failure_change]) ''prod''
       = Inr ''type Query { a: Int }''
   \<and> gitInfo (example_env (Inr None) [failure_change]) = Inr None
   \<and> validateHistoricParams (example_env (Inr None) [failure_change])
       (flags_validationPeriod (tagged_flags None))
       (flags_queryCountThreshold (tagged_flags None))
       (flags_queryCountThresholdPercentage (tagged_flags None)) = Inr None
   \<and> flags_tag (tagged_flags None) = None
   \<and> (\<exists>vars rest.
         fst (run (example_env (Inr None) [failure_change]) example_chalk example_clock
                (tagged_config None) (tagged_flags None))
           = ResolveSchema ''current'' # GitInfo # CheckSchema vars # rest
         \<and> vars_tag vars = None \<and> vars_tag vars \<noteq> Some ''current'')
   \<and> (\<exists>vars rest.
         fst (run (example_env (Inr None) [failure_change]) example_chalk example_clock
                (tagged_config (Some ''staging'')) (tagged_flags None))
           = ResolveSchema ''staging'' # GitInfo # CheckSchema vars # rest
         \<and> vars_tag vars = None \<and> vars_tag vars \<noteq> Some ''staging'')
   \<and> (\<exists>vars rest.
         fst (run (example_env (Inr None) [failure_change]) example_chalk example_clock
                (tagged_config (Some ''staging'')) (tagged_flags (Some ''prod'')))
           = ResolveSchema ''prod'' # GitInfo # CheckSchema vars # rest
         \<and> vars_tag vars = Some ''prod'')
   \<and> (\<exists>vars rest.
         fst (run (example_env (Inr None) [failure_change]) example_chalk example_clock
                (tagged_config (Some ''staging'')) (tagged_flags (Some [])))
           = ResolveSchema ''staging'' # GitInfo # CheckSchema vars # rest
         \<and> vars_tag vars = Some [])"
proof -
  let ?env = "example_env (Inr None) [failure_change]"
  have nm: "config_name (tagged_config ct) = Some ''my-service''" for ct
    by (simp add: tagged_config_def example_config_def)
  have ne: "''my-service'' \<noteq> []"
    by simp
  have rs: "resolveSchema ?env t = Inr ''type Query { a: Int }''" for t
    by (simp add: example_env_def)
  have gi: "gitInfo ?env = Inr None"
    by (simp add: example_env_def)
  have vh: "validateHistoricParams ?env (flags_validationPeriod (tagged_flags ft))
              (flags_queryCountThreshold (tagged_flags ft))
              (flags_queryCountThresholdPercentage (tagged_flags ft)) = Inr None" for ft
    by (simp add: example_env_def)
  have ft: "flags_tag (tagged_flags ft) = ft" for ft
    by (simp add: tagged_flags_def)
  have ct: "config_tag (tagged_config ct) = ct" for ct
    by (simp add: tagged_config_def)
  have A: "\<exists>vars rest.
         fst (run ?env example_chalk example_clock (tagged_config None) (tagged_flags None))
           = ResolveSchema ''current'' # GitInfo # CheckSchema vars # rest
         \<and> vars_tag vars = None \<and> vars_tag vars \<noteq> Some ''current''"
    using tag_default_not_forwarded
      [where cfg = "tagged_config None" and flags = "tagged_flags None" and tg = "''current''"
         and env = ?env and chalk = example_chalk and clock = example_clock,
       OF nm ne _ rs gi vh]
    by (simp add: ft ct)
  have B: "\<exists>vars rest.
         fst (run ?env example_chalk example_clock (tagged_config (Some ''staging''))
                (tagged_flags None))
           = ResolveSchema ''staging'' # GitInfo # CheckSchema vars # rest
         \<and> vars_tag vars = None \<and> vars_tag vars \<noteq> Some ''staging''"
    using tag_default_not_forwarded
      [where cfg = "tagged_config (Some ''staging'')" and flags = "tagged_flags None"
         and tg = "''staging''" and env = ?env and chalk = example_chalk
         and clock = example_clock,
       OF nm ne _ rs gi vh]
    by (simp add: ft ct)
  have C: "\<exists>vars rest.
         fst (run ?env example_chalk example_clock (tagged_config (Some ''staging''))
                (tagged_flags (Some ''prod'')))
           = ResolveSchema ''prod'' # GitInfo # CheckSchema vars # rest
         \<and> vars_tag vars = Some ''prod''"
    using tag_default_not_forwarded
      [where cfg = "tagged_config (Some ''staging'')" and flags = "tagged_flags (Some ''prod'')"
         and tg = "''prod''" and env = ?env and chalk = example_chalk
         and clock = example_clock,
       OF nm ne _ rs gi vh]
    by (simp add: ft ct)
  have D: "\<exists>vars rest.
         fst (run ?env example_chalk example_clock (tagged_config (Some ''staging''))
                (tagged_flags (Some [])))
           = ResolveSchema ''staging'' # GitInfo # CheckSchema vars # rest
         \<and> vars_tag vars = Some []"
    using tag_default_not_forwarded
      [where cfg = "tagged_config (Some ''staging'')" and flags = "tagged_flags (Some [])"
         and tg = "''staging''" and env = ?env and chalk = example_chalk
         and clock = example_clock,
       OF nm ne _ rs gi vh]
    by (simp add: ft ct)
  show ?thesis
    by (intro conjI nm ne rs gi vh ft A B C D)
qed


section \<open>Table mode\<close>

text \<open>
  C7. In table mode (neither JSON nor Markdown selected) with an empty list of changes,
  the whole output of the run is the single line "No changes present between schemas":
  no table is emitted, and the run returns normally.
\<close>

theorem table_mode_no_changes:
  assumes "task env cfg flags = (evs, Inr out)"
    and "\<not> ctx_shouldOutputJson out" and "\<not> ctx_shouldOutputMarkdown out"
    and "changes (diffToPrevious (ctx_checkSchemaResult out)) = []"
  shows "filter is_output (fst (run env chalk clock cfg flags))
           = [Log ([newline] @ ''No changes present between schemas'' @ [newline])]
         \<and> (\<forall>rows cols. Table rows cols \<notin> set (fst (run env chalk clock cfg flags)))
         \<and> snd (run env chalk clock cfg flags) = Returned"
proof -
  have quiet: "filter is_output evs = []"
    using assms(1) by (rule task_no_output)
  have r: "run env chalk clock cfg flags
             = (evs @ [Log ([newline] @ ''No changes present between schemas'' @ [newline])],
                Returned)"
    using assms by (simp add: run_def report_def)
  have "Table rows cols \<notin> set evs" for rows cols
  proof
    assume "Table rows cols \<in> set evs"
    then have "Table rows cols \<in> set (filter is_output evs)"
      by (simp add: is_output_def)
    with quiet show False by simp
  qed
  with r quiet show ?thesis by (simp add: is_output_def)
qed

theorem table_mode_no_changes_witness:
  "task (example_env (Inr None) []) (example_config (Some ''my-service'')) (example_flags None None)
     = ([ResolveSchema ''current'', GitInfo,
         CheckSchema \<lparr>vars_id = Some ''my-service'', vars_schema = ''type Query { a: Int }'',
                      vars_tag = None, vars_gitContext = None, vars_frontend = None,
                      vars_historicParameters = None\<rparr>],
        Inr \<lparr>ctx_gitContext = None, ctx_checkSchemaResult = example_result example_url [],
             ctx_config = example_config (Some ''my-service''),
             ctx_shouldOutputJson = False, ctx_shouldOutputMarkdown = False\<rparr>)
   \<and> changes (diffToPrevious (example_result example_url [])) = []
   \<and> filter is_output (fst (run (example_env (Inr None) []) example_chalk example_clock
                               (example_config (Some ''my-service'')) (example_flags None None)))
       = [Log ([newline] @ ''No changes present between schemas'' @ [newline])]
   \<and> snd (run (example_env (Inr None) []) example_chalk example_clock
             (example_config (Some ''my-service'')) (example_flags None None)) = Returned"
  using table_mode_no_changes
    [OF example_task [of "[]" None None], of example_chalk example_clock]
  by (simp add: example_task example_result_def)

text \<open>
  C8. In table mode with a non-empty list of changes, the output of the run is a blank
  line, one table, a blank line and at most a link line. The table has the columns
  (type, Change), (code, Code), (description, Description) and one row per change, in
  order. Every cell of a FAILURE row is wrapped by \<^verbatim>\<open>chalk.red\<close>, every cell of a WARNING row
  by \<^verbatim>\<open>chalk.yellow\<close>, and the cells of a NOTICE row are the plain texts.
\<close>

theorem table_mode_rows:
  assumes "task env cfg flags = (evs, Inr out)"
    and "\<not> ctx_shouldOutputJson out" and "\<not> ctx_shouldOutputMarkdown out"
    and "cs = changes (diffToPrevious (ctx_checkSchemaResult out))"
    and "cs \<noteq> []"
  shows "\<exists>rows links.
           filter is_output (fst (run env chalk clock cfg flags))
             = [Log [newline], Table rows table_columns, Log [newline]] @ links
           \<and> (links = [] \<or> (\<exists>s. links = [Log s]))
           \<and> table_columns
               = [(''type'', ''Change''), (''code'', ''Code''), (''description'', ''Description'')]
           \<and> length rows = length cs
           \<and> (\<forall>i < length cs.
                 rows ! i =
                   (case type (cs ! i) of
                      FAILURE \<Rightarrow> [(''type'', red chalk ''FAILURE''),
                                  (''code'', red chalk (code (cs ! i))),
                                  (''description'', red chalk (description (cs ! i)))]
                    | WARNING \<Rightarrow> [(''type'', yellow chalk ''WARNING''),
                                  (''code'', yellow chalk (code (cs ! i))),
                                  (''description'', yellow chalk (description (cs ! i)))]
                    | NOTICE \<Rightarrow> [(''type'', ''NOTICE''),
                                 (''code'', code (cs ! i)),
                                 (''description'', description (cs ! i))]))"
proof -
  let ?rows = "map (formatChange chalk) cs"
  let ?links = "if truthy (targetUrl (ctx_checkSchemaResult out))
                then [Log (''View full details at: ''
                           @ template_null (targetUrl (ctx_checkSchemaResult out)))]
                else []"
  have quiet: "filter is_output evs = []"
    using assms(1) by (rule task_no_output)
  have "fst (run env chalk clock cfg flags)
          = evs @ [Log [newline], Table ?rows table_columns, Log [newline]] @ ?links"
    using assms by (simp add: run_def report_def Let_def)
  then have trace: "filter is_output (fst (run env chalk clock cfg flags))
          = [Log [newline], Table ?rows table_columns, Log [newline]] @ ?links"
    using quiet by (simp add: is_output_def)
  have rows: "\<forall>i < length cs. ?rows ! i =
                   (case type (cs ! i) of
                      FAILURE \<Rightarrow> [(''type'', red chalk ''FAILURE''),
                                  (''code'', red chalk (code (cs ! i))),
                                  (''description'', red chalk (description (cs ! i)))]
                    | WARNING \<Rightarrow> [(''type'', yellow chalk ''WARNING''),
                                  (''code'', yellow chalk (code (cs ! i))),
                                  (''description'', yellow chalk (description (cs ! i)))]
                    | NOTICE \<Rightarrow> [(''type'', ''NOTICE''),
                                 (''code'', code (cs ! i)),
                                 (''description'', description (cs ! i))])"
    by (simp add: formatChange_row)
  show ?thesis
    apply (rule exI [of _ ?rows], rule exI [of _ ?links])
    using trace rows by (simp add: table_columns_def)
qed

theorem table_mode_rows_witness:
  "task (example_env (Inr None) [failure_change, warning_change, notice_change])
        (example_config (Some ''my-service'')) (example_flags None None)
     = ([ResolveSchema ''current'', GitInfo,
         CheckSchema \<lparr>vars_id = Some ''my-service'', vars_schema = ''type Query { a: Int }'',
                      vars_tag = None, vars_gitContext = None, vars_frontend = None,
                      vars_historicParameters = None\<rparr>],
        Inr \<lparr>ctx_gitContext = None,
             ctx_checkSchemaResult =
               example_result example_url [failure_change, warning_change, notice_change],
             ctx_config = example_config (Some ''my-service''),
             ctx_shouldOutputJson = False, ctx_shouldOutputMarkdown = False\<rparr>)
   \<and> [failure_change, warning_change, notice_change] \<noteq> []
   \<and> filter is_output
        (fst (run (example_env (Inr None) [failure_change, warning_change, notice_change])
                example_chalk example_clock (example_config (Some ''my-service'')) (example_flags None None)))
       = [Log [newline],
          Table [[(''type'', ''<red>FAILURE''), (''code'', ''<red>FIELD_REMOVED''),
                  (''description'', ''<red>field removed'')],
                 [(''type'', ''<yellow>WARNING''), (''code'', ''<yellow>ARG_CHANGED''),
                  (''description'', ''<yellow>argument changed'')],
                 [(''type'', ''NOTICE''), (''code'', ''FIELD_ADDED''),
                  (''description'', ''field added'')]]
            [(''type'', ''Change''), (''code'', ''Code''), (''description'', ''Description'')],
          Log [newline],
          Log ''View full details at: https://engine.example/check/1'']"
  using table_mode_rows
    [OF example_task [of "[failure_change, warning_change, notice_change]" None None],
     of "[failure_change, warning_change, notice_change]" example_chalk example_clock]
  by (simp add: example_task run_def report_def is_output_def example_result_def
        example_url_def truthy_def template_null_def formatChange_def Let_def table_columns_def
        failure_change_def warning_change_def notice_change_def example_chalk_def)


section \<open>Markdown mode\<close>

text \<open>
  Where a needle can occur in a text built from pieces: a character that the needle does
  not contain separates the pieces, and so does a non-empty piece that shares no character
  with the needle.
\<close>

lemma sublist_delim:
  assumes "c \<notin> set xs"
  shows "sublist xs (a @ c # b) \<longleftrightarrow> sublist xs a \<or> sublist xs b"
proof
  assume "sublist xs (a @ c # b)"
  then consider "sublist xs a" | "sublist xs (c # b)"
    | xs1 xs2 where "xs = xs1 @ xs2" "suffix xs1 a" "prefix xs2 (c # b)"
    by (auto simp: sublist_append)
  then show "sublist xs a \<or> sublist xs b"
  proof cases
    case 1
    then show ?thesis by simp
  next
    case 2
    then have "prefix xs (c # b) \<or> sublist xs b"
      by (simp add: sublist_Cons_right)
    moreover have "xs = []" if "prefix xs (c # b)"
      using that assms by (cases xs) auto
    ultimately show ?thesis by auto
  next
    case 3
    have "xs2 = []"
      using 3(1,3) assms by (cases xs2) auto
    with 3 show ?thesis by auto
  qed
next
  assume "sublist xs a \<or> sublist xs b"
  then show "sublist xs (a @ c # b)"
  proof
    assume "sublist xs a"
    then obtain p s where "a = p @ xs @ s"
      by (auto simp: sublist_def)
    then have "a @ c # b = p @ xs @ (s @ c # b)" by simp
    then show ?thesis
      unfolding sublist_def by blast
  next
    assume "sublist xs b"
    then obtain p s where "b = p @ xs @ s"
      by (auto simp: sublist_def)
    then have "a @ c # b = (a @ c # p) @ xs @ s" by simp
    then show ?thesis
      unfolding sublist_def by blast
  qed
qed

lemma sublist_skip:
  assumes "xs \<noteq> []" and "set xs \<inter> set v = {}"
  shows "sublist xs (v @ b) \<longleftrightarrow> sublist xs b"
  using assms(2)
proof (induction v)
  case Nil
  then show ?case by simp
next
  case (Cons c v)
  then have c: "c \<notin> set xs" and v: "set xs \<inter> set v = {}"
    by auto
  have "\<not> sublist xs []"
    using assms(1) by simp
  with sublist_delim [OF c, of "[]" "v @ b"] Cons.IH [OF v]
  show ?case by simp
qed

lemma sublist_gap:
  assumes "v \<noteq> []" and "set xs \<inter> set v = {}"
  shows "sublist xs (a @ v @ b) \<longleftrightarrow> sublist xs a \<or> sublist xs b"
proof (cases "xs = []")
  case True
  then show ?thesis by simp
next
  case False
  obtain c w where vw: "v = c # w"
    using assms(1) by (cases v) auto
  with assms(2) have c: "c \<notin> set xs" and w: "set xs \<inter> set w = {}"
    by auto
  have "sublist xs (a @ v @ b) \<longleftrightarrow> sublist xs a \<or> sublist xs (w @ b)"
    using sublist_delim [OF c, of a "w @ b"] vw by simp
  also have "sublist xs (w @ b) \<longleftrightarrow> sublist xs b"
    by (rule sublist_skip [OF False w])
  finally show ?thesis .
qed


text \<open>Rendered numbers are non-empty runs of digits, with a leading minus sign at most.\<close>

lemma show_nat_nonempty: "show_nat n \<noteq> []"
  by (subst show_nat.simps) simp

lemma digit_char: "n < 10 \<Longrightarrow> ''0123456789'' ! n \<in> set ''0123456789''"
  by (rule nth_mem) simp

lemma show_nat_digits: "set (show_nat n) \<subseteq> set ''0123456789''"
proof (induction n rule: show_nat.induct)
  case (1 n)
  show ?case
  proof (cases "n < 10")
    case True
    then show ?thesis
      using digit_char [of n] by (subst show_nat.simps) simp
  next
    case False
    have "n mod 10 < 10" by simp
    then have "''0123456789'' ! (n mod 10) \<in> set ''0123456789''"
      by (rule digit_char)
    with False "1.IH" show ?thesis
      by (subst show_nat.simps) simp
  qed
qed

lemma show_int_nonempty: "show_int i \<noteq> []"
  by (simp add: show_int_def show_nat_nonempty)

lemma show_int_chars: "set (show_int i) \<subseteq> set ''-0123456789''"
proof -
  define D where "D = set ''-0123456789''"
  have "set ''0123456789'' \<subseteq> D"
    unfolding D_def by (rule set_subset_Cons)
  then have nat: "set (show_nat n) \<subseteq> D" for n
    using show_nat_digits [of n] by (rule order_trans [rotated])
  have minus: "CHR ''-'' \<in> D"
    unfolding D_def by (rule list.set_intros(1))
  have "set (show_int i) \<subseteq> D"
  proof (cases "i < 0")
    case True
    then have "show_int i = CHR ''-'' # show_nat (nat (- i))"
      by (simp add: show_int_def)
    then have "set (show_int i) = insert (CHR ''-'') (set (show_nat (nat (- i))))"
      by simp
    with nat [of "nat (- i)"] minus show ?thesis
      by simp
  next
    case False
    then have "show_int i = show_nat (nat i)"
      by (simp add: show_int_def)
    with nat [of "nat i"] show ?thesis
      by simp
  qed
  then show ?thesis
    unfolding D_def .
qed


text \<open>The template, piece by piece.\<close>

lemma formatMarkdown_shape:
  "formatMarkdown clock r c =
     newline # ''### Apollo Service Check'' @ newline
     # (pict_validated @ '' Validated your local schema against schema tag '')
     @ CHR 0x27 # tag c @ CHR 0x27 # '' on service '' @ CHR 0x27 # service_name c
     @ CHR 0x27 # ''.'' @ newline
     # (pict_compared @ '' Compared **'') @ show_nat (length (changes (diffToPrevious r)))
     @ (case elapsed_days clock (validationConfig (diffToPrevious r)) of
          None \<Rightarrow> '' schema changes** against operations seen over the **last NaN days**.''
        | Some i \<Rightarrow>
            if i = 1
            then '' schema changes** against operations seen over the **last day**.''
            else '' schema changes** against operations seen over the **last ''
                 @ show_int i @ '' days**.'')
     @ newline
     # (if 0 < breakingCount r
        then (pict_found @ '' Found **'') @ show_nat (breakingCount r)
             @ '' breaking changes** that would affect **''
             @ show_nat (length (affectedQueries (diffToPrevious r)))
             @ '' operations**''
        else pict_none @ '' Found **no breaking changes**.'')
     @ newline # newline
     # (pict_link @ '' [View your service check details]'')
     @ CHR ''('' # template_null (targetUrl r) @ CHR '')'' # ''.'' @ [newline]"
  by (simp add: formatMarkdown_def Let_def breakingCount_def template_number_def
        split: option.split)

text \<open>
  A needle without line breaks, quotes, parentheses, digits and minus signs occurs in the
  document exactly when it occurs in one of the caller's strings or in one of the fixed
  runs of the template.
\<close>

lemma formatMarkdown_sublist:
  assumes ne: "N \<noteq> []"
    and clean: "set N \<inter> set ([newline, CHR 0x27] @ ''()-0123456789'') = {}"
  shows "sublist N (formatMarkdown clock r c) \<longleftrightarrow>
           sublist N (tag c) \<or> sublist N (service_name c)
           \<or> sublist N (template_null (targetUrl r))
           \<or> sublist N ''### Apollo Service Check''
           \<or> sublist N (pict_validated @ '' Validated your local schema against schema tag '')
           \<or> sublist N '' on service ''
           \<or> sublist N ''.''
           \<or> sublist N (pict_compared @ '' Compared **'')
           \<or> (case elapsed_days clock (validationConfig (diffToPrevious r)) of
                 None \<Rightarrow>
                   sublist N
                     '' schema changes** against operations seen over the **last NaN days**.''
               | Some i \<Rightarrow>
                   if i = 1
                   then sublist N
                          '' schema changes** against operations seen over the **last day**.''
                   else sublist N '' schema changes** against operations seen over the **last ''
                        \<or> sublist N '' days**.'')
           \<or> (if 0 < breakingCount r
               then sublist N (pict_found @ '' Found **'')
                    \<or> sublist N '' breaking changes** that would affect **''
                    \<or> sublist N '' operations**''
               else sublist N (pict_none @ '' Found **no breaking changes**.''))
           \<or> sublist N (pict_link @ '' [View your service check details]'')"
proof -
  define h1 where "h1 = ''### Apollo Service Check''"
  define pv where "pv = pict_validated @ '' Validated your local schema against schema tag ''"
  define os where "os = '' on service ''"
  define dot where "dot = ''.''"
  define pc where "pc = pict_compared @ '' Compared **''"
  define f_nan where
    "f_nan = '' schema changes** against operations seen over the **last NaN days**.''"
  define f_single where
    "f_single = '' schema changes** against operations seen over the **last day**.''"
  define f_last where
    "f_last = '' schema changes** against operations seen over the **last ''"
  define f_days where "f_days = '' days**.''"
  define pf where "pf = pict_found @ '' Found **''"
  define bc where "bc = '' breaking changes** that would affect **''"
  define ops where "ops = '' operations**''"
  define pn where "pn = pict_none @ '' Found **no breaking changes**.''"
  define pl where "pl = pict_link @ '' [View your service check details]''"
  define d where "d = elapsed_days clock (validationConfig (diffToPrevious r))"
  define n where "n = length (changes (diffToPrevious r))"
  define k where "k = breakingCount r"
  define m where "m = length (affectedQueries (diffToPrevious r))"
  define url where "url = template_null (targetUrl r)"
  define X where
    "X = (case d of None \<Rightarrow> f_nan
          | Some i \<Rightarrow> if i = 1 then f_single else f_last @ show_int i @ f_days)"
  define V where "V = (if 0 < k then pf @ show_nat k @ bc @ show_nat m @ ops else pn)"
  note defs = h1_def pv_def os_def dot_def pc_def f_nan_def f_single_def f_last_def f_days_def
    pf_def bc_def ops_def pn_def pl_def d_def n_def k_def m_def url_def X_def V_def
  have shape: "formatMarkdown clock r c =
      newline # h1 @ newline # pv @ CHR 0x27 # tag c @ CHR 0x27 # os @ CHR 0x27
      # service_name c @ CHR 0x27 # dot @ newline # (pc @ show_nat n @ X) @ newline # V
      @ newline # newline # pl @ CHR ''('' # url @ CHR '')'' # dot @ newline # []"
    unfolding defs by (subst formatMarkdown_shape) simp
  have nl: "newline \<notin> set N" and q: "CHR 0x27 \<notin> set N"
    and lp: "CHR ''('' \<notin> set N" and rp: "CHR '')'' \<notin> set N"
    using clean by auto
  have "set N \<inter> set ''-0123456789'' = {}"
    using clean by auto
  then have int: "set N \<inter> set (show_int i) = {}" for i
    using show_int_chars [of i] by blast
  have "set N \<inter> set ''0123456789'' = {}"
    using clean by auto
  then have nat: "set N \<inter> set (show_nat j) = {}" for j
    using show_nat_digits [of j] by blast
  have lead: "sublist N (newline # b) \<longleftrightarrow> sublist N b" for b
    using sublist_delim [OF nl, of "[]" b] ne by simp
  have nil: "\<not> sublist N []"
    using ne by simp
  have X: "sublist N (pc @ show_nat n @ X)
             \<longleftrightarrow> sublist N pc
                 \<or> (case d of None \<Rightarrow> sublist N f_nan
                     | Some i \<Rightarrow> if i = 1 then sublist N f_single
                                  else sublist N f_last \<or> sublist N f_days)"
  proof (cases d)
    case None
    then show ?thesis
      unfolding X_def
      using sublist_gap [OF show_nat_nonempty [of n] nat [of n], of pc f_nan]
      by simp
  next
    case (Some i)
    then show ?thesis
      unfolding X_def
      using sublist_gap [OF show_nat_nonempty [of n] nat [of n], of pc]
        sublist_gap [OF show_int_nonempty [of i] int [of i], of f_last f_days]
      by simp
  qed
  have V: "sublist N V
             \<longleftrightarrow> (if 0 < k then sublist N pf \<or> sublist N bc \<or> sublist N ops
                  else sublist N pn)"
    unfolding V_def
    using sublist_gap [OF show_nat_nonempty [of k] nat [of k], of pf "bc @ show_nat m @ ops"]
      sublist_gap [OF show_nat_nonempty [of m] nat [of m], of bc ops]
    by simp
  have "sublist N (formatMarkdown clock r c) \<longleftrightarrow>
          sublist N h1 \<or> sublist N pv \<or> sublist N (tag c) \<or> sublist N os
          \<or> sublist N (service_name c) \<or> sublist N dot
          \<or> sublist N (pc @ show_nat n @ X) \<or> sublist N V \<or> sublist N pl
          \<or> sublist N url \<or> sublist N dot"
    unfolding shape
    by (simp only: lead nil sublist_delim [OF nl] sublist_delim [OF q] sublist_delim [OF lp]
          sublist_delim [OF rp] simp_thms)
  then show ?thesis
    unfolding X V unfolding defs by blast
qed

text \<open>
  Truncation toward zero, and the day count of the source in terms of the two moments and
  the zone correction.
\<close>

lemma absFloor_div_minus:
  "- absFloor_div x d = (if - x < 0 then - ((- (- x)) div d) else (- x) div d)"
  by (simp add: absFloor_div_def)

lemma trunc_nonneg:
  fixes y :: int
  assumes "- 86400000 < y"
  shows "0 \<le> (if y < 0 then - ((- y) div 86400000) else y div 86400000)"
proof (cases "y < 0")
  case True
  with assms have "(- y) div 86400000 = 0"
    by (simp add: div_pos_pos_trivial)
  with True show ?thesis
    by simp
next
  case False
  then show ?thesis
    by (simp add: pos_imp_zdiv_nonneg_iff)
qed

lemma trunc_seconds:
  fixes x :: int
  assumes "0 \<le> x"
  shows "(if 1000 * x < 0 then - ((- (1000 * x)) div 86400000) else (1000 * x) div 86400000)
           = x div 86400"
proof -
  have "(1000 * x) div 86400000 = x div 86400"
    using div_mult_mult1 [of 1000 x 86400] by simp
  with assms show ?thesis
    by simp
qed

lemma elapsed_days_cases:
  assumes "a = first_now clock + 1000 * from' vc" and "b = second_now clock + 1000 * to' vc"
    and "zd = (utcOffset clock b - utcOffset clock a) * 60000"
  shows "elapsed_days clock vc
           = (if date_valid (first_now clock) \<and> date_valid (second_now clock)
                 \<and> date_valid a \<and> date_valid b
              then Some (- absFloor_div (a - b - zd) 86400000) else None)"
  using assms
  by (simp add: elapsed_days_def moment_now_def moment_add_seconds_def moment_diff_days_def
        Let_def)

text \<open>
  What the document shows for a count other than 1, for \<^verbatim>\<open>NaN\<close>, and for a positive number
  of failures.
\<close>

lemma formatMarkdown_days:
  assumes "elapsed_days clock (validationConfig (diffToPrevious r)) = Some d" and "d \<noteq> 1"
  shows "sublist (''**last '' @ show_int d @ '' days**'') (formatMarkdown clock r c)"
proof -
  define A where "A = newline # ''### Apollo Service Check'' @ newline
     # (pict_validated @ '' Validated your local schema against schema tag '')
     @ CHR 0x27 # tag c @ CHR 0x27 # '' on service '' @ CHR 0x27 # service_name c
     @ CHR 0x27 # ''.'' @ newline
     # (pict_compared @ '' Compared **'') @ show_nat (length (changes (diffToPrevious r)))
     @ '' schema changes** against operations seen over the ''"
  define B where "B = ''.'' @ newline
     # (if 0 < breakingCount r
        then (pict_found @ '' Found **'') @ show_nat (breakingCount r)
             @ '' breaking changes** that would affect **''
             @ show_nat (length (affectedQueries (diffToPrevious r)))
             @ '' operations**''
        else pict_none @ '' Found **no breaking changes**.'')
     @ newline # newline
     # (pict_link @ '' [View your service check details]'')
     @ CHR ''('' # template_null (targetUrl r) @ CHR '')'' # ''.'' @ [newline]"
  have "formatMarkdown clock r c = A @ (''**last '' @ show_int d @ '' days**'') @ B"
    using assms unfolding A_def B_def by (subst formatMarkdown_shape) simp
  then show ?thesis
    by (metis sublist_appendI)
qed

lemma formatMarkdown_nan:
  assumes "elapsed_days clock (validationConfig (diffToPrevious r)) = None"
  shows "sublist ''**last NaN days**'' (formatMarkdown clock r c)"
proof -
  define A where "A = newline # ''### Apollo Service Check'' @ newline
     # (pict_validated @ '' Validated your local schema against schema tag '')
     @ CHR 0x27 # tag c @ CHR 0x27 # '' on service '' @ CHR 0x27 # service_name c
     @ CHR 0x27 # ''.'' @ newline
     # (pict_compared @ '' Compared **'') @ show_nat (length (changes (diffToPrevious r)))
     @ '' schema changes** against operations seen over the ''"
  define B where "B = ''.'' @ newline
     # (if 0 < breakingCount r
        then (pict_found @ '' Found **'') @ show_nat (breakingCount r)
             @ '' breaking changes** that would affect **''
             @ show_nat (length (affectedQueries (diffToPrevious r)))
             @ '' operations**''
        else pict_none @ '' Found **no breaking changes**.'')
     @ newline # newline
     # (pict_link @ '' [View your service check details]'')
     @ CHR ''('' # template_null (targetUrl r) @ CHR '')'' # ''.'' @ [newline]"
  have "formatMarkdown clock r c = A @ ''**last NaN days**'' @ B"
    using assms unfolding A_def B_def by (subst formatMarkdown_shape) simp
  then show ?thesis
    by (metis sublist_appendI)
qed

lemma formatMarkdown_found:
  assumes "0 < breakingCount r"
  shows "sublist (''Found **'' @ show_nat (breakingCount r)
                  @ '' breaking changes** that would affect **''
                  @ show_nat (length (affectedQueries (diffToPrevious r))) @ '' operations**'')
           (formatMarkdown clock r c)"
proof -
  define V where "V = ''Found **'' @ show_nat (breakingCount r)
                  @ '' breaking changes** that would affect **''
                  @ show_nat (length (affectedQueries (diffToPrevious r))) @ '' operations**''"
  define L where "L = (case elapsed_days clock (validationConfig (diffToPrevious r)) of
          None \<Rightarrow> '' schema changes** against operations seen over the **last NaN days**.''
        | Some i \<Rightarrow>
            if i = 1
            then '' schema changes** against operations seen over the **last day**.''
            else '' schema changes** against operations seen over the **last ''
                 @ show_int i @ '' days**.'')"
  define A where "A = newline # ''### Apollo Service Check'' @ newline
     # (pict_validated @ '' Validated your local schema against schema tag '')
     @ CHR 0x27 # tag c @ CHR 0x27 # '' on service '' @ CHR 0x27 # service_name c
     @ CHR 0x27 # ''.'' @ newline
     # (pict_compared @ '' Compared **'') @ show_nat (length (changes (diffToPrevious r)))
     @ L @ newline # pict_found @ '' ''"
  define B where "B = newline # newline
     # (pict_link @ '' [View your service check details]'')
     @ CHR ''('' # template_null (targetUrl r) @ CHR '')'' # ''.'' @ [newline]"
  have "formatMarkdown clock r c = A @ V @ B"
    using assms unfolding A_def B_def V_def L_def [symmetric]
    by (subst formatMarkdown_shape) (simp add: L_def [symmetric])
  then show ?thesis
    unfolding V_def by (metis sublist_appendI)
qed

text \<open>The two needles against the fixed runs of the template, by evaluation.\<close>

lemma needle_day_clean:
  "''**last day**'' \<noteq> []"
  "set ''**last day**'' \<inter> set ([newline, CHR 0x27] @ ''()-0123456789'') = {}"
  by (simp_all add: newline_def)

lemma needle_day_fixed:
  "\<not> sublist ''**last day**'' ''### Apollo Service Check''"
  "\<not> sublist ''**last day**'' (pict_validated @ '' Validated your local schema against schema tag '')"
  "\<not> sublist ''**last day**'' '' on service ''"
  "\<not> sublist ''**last day**'' ''.''"
  "\<not> sublist ''**last day**'' (pict_compared @ '' Compared **'')"
  "sublist ''**last day**'' '' schema changes** against operations seen over the **last day**.''"
  "\<not> sublist ''**last day**''
       '' schema changes** against operations seen over the **last NaN days**.''"
  "\<not> sublist ''**last day**'' '' schema changes** against operations seen over the **last ''"
  "\<not> sublist ''**last day**'' '' days**.''"
  "\<not> sublist ''**last day**'' (pict_found @ '' Found **'')"
  "\<not> sublist ''**last day**'' '' breaking changes** that would affect **''"
  "\<not> sublist ''**last day**'' '' operations**''"
  "\<not> sublist ''**last day**'' (pict_none @ '' Found **no breaking changes**.'')"
  "\<not> sublist ''**last day**'' (pict_link @ '' [View your service check details]'')"
  by code_simp+

lemma needle_none_clean:
  "''Found **no breaking changes**.'' \<noteq> []"
  "set ''Found **no breaking changes**.'' \<inter> set ([newline, CHR 0x27] @ ''()-0123456789'') = {}"
  by (simp_all add: newline_def)

lemma needle_none_fixed:
  "\<not> sublist ''Found **no breaking changes**.'' ''### Apollo Service Check''"
  "\<not> sublist ''Found **no breaking changes**.'' (pict_validated @ '' Validated your local schema against schema tag '')"
  "\<not> sublist ''Found **no breaking changes**.'' '' on service ''"
  "\<not> sublist ''Found **no breaking changes**.'' ''.''"
  "\<not> sublist ''Found **no breaking changes**.'' (pict_compared @ '' Compared **'')"
  "\<not> sublist ''Found **no breaking changes**.'' '' schema changes** against operations seen over the **last day**.''"
  "\<not> sublist ''Found **no breaking changes**.''
       '' schema changes** against operations seen over the **last NaN days**.''"
  "\<not> sublist ''Found **no breaking changes**.'' '' schema changes** against operations seen over the **last ''"
  "\<not> sublist ''Found **no breaking changes**.'' '' days**.''"
  "\<not> sublist ''Found **no breaking changes**.'' (pict_found @ '' Found **'')"
  "\<not> sublist ''Found **no breaking changes**.'' '' breaking changes** that would affect **''"
  "\<not> sublist ''Found **no breaking changes**.'' '' operations**''"
  "sublist ''Found **no breaking changes**.'' (pict_none @ '' Found **no breaking changes**.'')"
  "\<not> sublist ''Found **no breaking changes**.'' (pict_link @ '' [View your service check details]'')"
  by code_simp+


lemma formatMarkdown_single:
  assumes "\<not> sublist ''**last day**'' (tag c)"
    and "\<not> sublist ''**last day**'' (service_name c)"
    and "\<not> sublist ''**last day**'' (template_null (targetUrl r))"
  shows "sublist ''**last day**'' (formatMarkdown clock r c)
           \<longleftrightarrow> elapsed_days clock (validationConfig (diffToPrevious r)) = Some 1"
proof (cases "elapsed_days clock (validationConfig (diffToPrevious r))")
  case None
  show ?thesis
    unfolding formatMarkdown_sublist [OF needle_day_clean]
    using assms None
    by (simp only: needle_day_fixed simp_thms if_True if_False option.case option.distinct
          split: if_split)
next
  case (Some i)
  show ?thesis
    unfolding formatMarkdown_sublist [OF needle_day_clean]
    using assms Some
    by (simp only: needle_day_fixed simp_thms if_True if_False option.case option.inject
          split: if_split) blast
qed

text \<open>
  C3 (amended). The spec's count, the span rounded up, is not what the source computes.
  Let \<open>a\<close> be the first clock reading moved by \<open>from\<close> seconds, \<open>b\<close> the second clock
  reading moved by \<open>to\<close> seconds, and \<open>zd\<close> the change of the zone's UTC offset from \<open>a\<close>
  to \<open>b\<close> in milliseconds, within the range where JavaScript numbers are exact. With both
  readings and both moments inside the range of a \<^verbatim>\<open>Date\<close>, the source's count \<open>d\<close> is
  \<open>b - a + zd\<close> divided by 86400000 and truncated toward zero; otherwise the count is
  \<^verbatim>\<open>NaN\<close>. The count \<open>d\<close> is non-negative whenever \<open>from \<le> to\<close>, the clock does not run
  backwards and the offset falls by less than a day; it is the span \<open>to - from\<close> in whole
  days, rounded down, when \<open>from \<le> to\<close>, both readings are equal and the offset does not
  change. For caller strings that do not themselves contain the text, the document
  contains the singular "last day" exactly when the count is 1; for any other count it
  shows "last <count> days", and "last NaN days" for \<^verbatim>\<open>NaN\<close>.
\<close>

theorem markdown_elapsed_days:
  assumes "\<not> sublist ''**last day**'' (tag c)"
    and "\<not> sublist ''**last day**'' (service_name c)"
    and "\<not> sublist ''**last day**'' (template_null (targetUrl r))"
    and "vc = validationConfig (diffToPrevious r)"
    and "a = first_now clock + 1000 * from' vc" and "b = second_now clock + 1000 * to' vc"
    and "zd = (utcOffset clock b - utcOffset clock a) * 60000"
    and "\<bar>a - b\<bar> + \<bar>zd\<bar> \<le> 9007199254740992"
    and "y = b - a + zd"
    and "d = (if y < 0 then - ((- y) div 86400000) else y div 86400000)"
  shows "elapsed_days clock vc
           = (if \<bar>first_now clock\<bar> \<le> 8640000000000000
                 \<and> \<bar>second_now clock\<bar> \<le> 8640000000000000
                 \<and> \<bar>a\<bar> \<le> 8640000000000000 \<and> \<bar>b\<bar> \<le> 8640000000000000
              then Some d else None)
         \<and> (from' vc \<le> to' vc \<and> first_now clock \<le> second_now clock \<and> - 86400000 < zd
              \<longrightarrow> 0 \<le> d)
         \<and> (from' vc \<le> to' vc \<and> first_now clock = second_now clock \<and> zd = 0
              \<longrightarrow> d = (to' vc - from' vc) div 86400)
         \<and> (sublist ''**last day**'' (formatMarkdown clock r c)
              \<longleftrightarrow> elapsed_days clock vc = Some 1)
         \<and> (\<forall>i. elapsed_days clock vc = Some i \<and> i \<noteq> 1 \<longrightarrow>
               sublist (''**last '' @ show_int i @ '' days**'') (formatMarkdown clock r c))
         \<and> (elapsed_days clock vc = None \<longrightarrow>
               sublist ''**last NaN days**'' (formatMarkdown clock r c))"
proof (intro conjI)
  have "- (a - b - zd) = y"
    unfolding assms(9) by simp
  then have "- absFloor_div (a - b - zd) 86400000 = d"
    unfolding assms(10) absFloor_div_minus by simp
  then show "elapsed_days clock vc
           = (if \<bar>first_now clock\<bar> \<le> 8640000000000000
                 \<and> \<bar>second_now clock\<bar> \<le> 8640000000000000
                 \<and> \<bar>a\<bar> \<le> 8640000000000000 \<and> \<bar>b\<bar> \<le> 8640000000000000
              then Some d else None)"
    unfolding elapsed_days_cases [OF assms(5,6,7)] date_valid_def by simp
  show "from' vc \<le> to' vc \<and> first_now clock \<le> second_now clock \<and> - 86400000 < zd
          \<longrightarrow> 0 \<le> d"
  proof
    assume h: "from' vc \<le> to' vc \<and> first_now clock \<le> second_now clock \<and> - 86400000 < zd"
    then have "0 \<le> b - a"
      unfolding assms(5,6) by simp
    with h have "- 86400000 < y"
      unfolding assms(9) by simp
    then show "0 \<le> d"
      unfolding assms(10) by (rule trunc_nonneg)
  qed
  show "from' vc \<le> to' vc \<and> first_now clock = second_now clock \<and> zd = 0
          \<longrightarrow> d = (to' vc - from' vc) div 86400"
  proof
    assume h: "from' vc \<le> to' vc \<and> first_now clock = second_now clock \<and> zd = 0"
    then have "y = 1000 * (to' vc - from' vc)"
      unfolding assms(5,6,9) by simp
    with h show "d = (to' vc - from' vc) div 86400"
      unfolding assms(10) using trunc_seconds [of "to' vc - from' vc"] by simp
  qed
  show "sublist ''**last day**'' (formatMarkdown clock r c)
          \<longleftrightarrow> elapsed_days clock vc = Some 1"
    unfolding assms(4) using assms(1-3) by (rule formatMarkdown_single)
  show "\<forall>i. elapsed_days clock vc = Some i \<and> i \<noteq> 1 \<longrightarrow>
          sublist (''**last '' @ show_int i @ '' days**'') (formatMarkdown clock r c)"
    unfolding assms(4) using formatMarkdown_days [of clock r _ c] by blast
  show "elapsed_days clock vc = None \<longrightarrow>
          sublist ''**last NaN days**'' (formatMarkdown clock r c)"
    unfolding assms(4) using formatMarkdown_nan [of clock r c] by blast
qed

theorem markdown_elapsed_days_witness:
  "\<not> sublist ''**last day**'' (tag example_markdown_config)
   \<and> \<not> sublist ''**last day**'' (service_name example_markdown_config)
   \<and> \<not> sublist ''**last day**''
         (template_null (targetUrl (example_result example_url [failure_change])))
   \<and> 1699395200000
       = first_now example_clock
         + 1000 * from' (validationConfig (diffToPrevious
                           (example_result example_url [failure_change])))
   \<and> 1700000000000
       = second_now example_clock
         + 1000 * to' (validationConfig (diffToPrevious
                         (example_result example_url [failure_change])))
   \<and> 0 = (utcOffset example_clock 1700000000000 - utcOffset example_clock 1699395200000) * 60000
   \<and> \<bar>1699395200000 - 1700000000000\<bar> + \<bar>0\<bar> \<le> (9007199254740992 :: int)
   \<and> (604800000 :: int) = 1700000000000 - 1699395200000 + 0
   \<and> (7 :: int) = (if (604800000 :: int) < 0 then - ((- 604800000) div 86400000)
                    else 604800000 div 86400000)
   \<and> from' (validationConfig (diffToPrevious (example_result example_url [failure_change])))
       \<le> to' (validationConfig (diffToPrevious (example_result example_url [failure_change])))
   \<and> first_now example_clock = second_now example_clock
   \<and> elapsed_days example_clock
        (validationConfig (diffToPrevious (example_result example_url [failure_change])))
       = Some 7
   \<and> (7 :: int) = (to' (validationConfig (diffToPrevious
                            (example_result example_url [failure_change])))
                    - from' (validationConfig (diffToPrevious
                               (example_result example_url [failure_change])))) div 86400
   \<and> \<not> sublist ''**last day**''
         (formatMarkdown example_clock (example_result example_url [failure_change])
            example_markdown_config)
   \<and> sublist ''**last 7 days**''
         (formatMarkdown example_clock (example_result example_url [failure_change])
            example_markdown_config)
   \<and> 8701700000000000
       = first_now example_clock
         + 1000 * from' (validationConfig (diffToPrevious far_window_result))
   \<and> 8701700000000000
       = second_now example_clock
         + 1000 * to' (validationConfig (diffToPrevious far_window_result))
   \<and> elapsed_days example_clock (validationConfig (diffToPrevious far_window_result)) = None
   \<and> sublist ''**last NaN days**''
         (formatMarkdown example_clock far_window_result example_markdown_config)"
proof -
  let ?vc = "validationConfig (diffToPrevious (example_result example_url [failure_change]))"
  let ?far = "validationConfig (diffToPrevious far_window_result)"
  have h1: "\<not> sublist ''**last day**'' (tag example_markdown_config)"
    by code_simp
  have h2: "\<not> sublist ''**last day**'' (service_name example_markdown_config)"
    by code_simp
  have h3: "\<not> sublist ''**last day**''
              (template_null (targetUrl (example_result example_url [failure_change])))"
    by code_simp
  have h3': "\<not> sublist ''**last day**'' (template_null (targetUrl far_window_result))"
    by code_simp
  have a: "1699395200000 = first_now example_clock + 1000 * from' ?vc"
    by code_simp
  have b: "1700000000000 = second_now example_clock + 1000 * to' ?vc"
    by code_simp
  have zd: "0 = (utcOffset example_clock 1700000000000
                 - utcOffset example_clock 1699395200000) * 60000"
    by code_simp
  have ex: "\<bar>1699395200000 - 1700000000000\<bar> + \<bar>0\<bar> \<le> (9007199254740992 :: int)"
    by simp
  have y: "(604800000 :: int) = 1700000000000 - 1699395200000 + 0"
    by simp
  have d: "(7 :: int) = (if (604800000 :: int) < 0 then - ((- 604800000) div 86400000)
                         else 604800000 div 86400000)"
    by simp
  have w: "from' ?vc \<le> to' ?vc"
    by code_simp
  have same: "first_now example_clock = second_now example_clock"
    by code_simp
  have v: "\<bar>first_now example_clock\<bar> \<le> 8640000000000000
           \<and> \<bar>second_now example_clock\<bar> \<le> 8640000000000000
           \<and> \<bar>1699395200000\<bar> \<le> (8640000000000000 :: int)
           \<and> \<bar>1700000000000\<bar> \<le> (8640000000000000 :: int)"
    by code_simp
  have s: "show_int 7 = ''7''"
    by code_simp
  note T = markdown_elapsed_days [OF h1 h2 h3 refl a b zd ex y d]
  from T v have T1: "elapsed_days example_clock ?vc = Some 7"
    by simp
  from T w same have T3: "(7 :: int) = (to' ?vc - from' ?vc) div 86400"
    by blast
  from T T1 have T4: "\<not> sublist ''**last day**''
         (formatMarkdown example_clock (example_result example_url [failure_change])
            example_markdown_config)"
    by simp
  from T T1 have "sublist (''**last '' @ show_int 7 @ '' days**'')
         (formatMarkdown example_clock (example_result example_url [failure_change])
            example_markdown_config)"
    by simp
  then have T5: "sublist ''**last 7 days**''
         (formatMarkdown example_clock (example_result example_url [failure_change])
            example_markdown_config)"
    unfolding s by simp
  have fa: "8701700000000000 = first_now example_clock + 1000 * from' ?far"
    by code_simp
  have fb: "8701700000000000 = second_now example_clock + 1000 * to' ?far"
    by code_simp
  have fzd: "0 = (utcOffset example_clock 8701700000000000
                  - utcOffset example_clock 8701700000000000) * 60000"
    by simp
  have fex: "\<bar>8701700000000000 - 8701700000000000\<bar> + \<bar>0\<bar> \<le> (9007199254740992 :: int)"
    by simp
  have fy: "(0 :: int) = 8701700000000000 - 8701700000000000 + 0"
    by simp
  have fd: "(0 :: int) = (if (0 :: int) < 0 then - ((- 0) div 86400000) else 0 div 86400000)"
    by simp
  have fv: "\<not> \<bar>8701700000000000\<bar> \<le> (8640000000000000 :: int)"
    by simp
  note F = markdown_elapsed_days [OF h1 h2 h3' refl fa fb fzd fex fy fd]
  from F fv have F1: "elapsed_days example_clock ?far = None"
    by simp
  from F F1 have F2: "sublist ''**last NaN days**''
         (formatMarkdown example_clock far_window_result example_markdown_config)"
    by blast
  show ?thesis
    by (intro conjI h1 h2 h3 a b zd ex y d w same T1 T3 T4 T5 fa fb F1 F2)
qed

text \<open>
  The same window read with a clock across an offset change gives 6 days, and a clock that
  has moved on by a millisecond gives -1 for a window of two days whose \<open>from\<close> lies after
  its \<open>to\<close>.
\<close>

lemma elapsed_days_examples:
  "elapsed_days example_dst_clock \<lparr>from' = - 604800, to' = 0\<rparr> = Some 6"
  "elapsed_days example_dst_clock \<lparr>from' = 0, to' = - 172800\<rparr> = Some (- 1)"
  by code_simp+

text \<open>
  For a window of 100 seconds the spec's count is 1 and the source's count is 0, rendered
  as "last 0 days"; for a window whose \<open>from\<close> lies after its \<open>to\<close> the source's
  count is negative.
\<close>

theorem markdown_elapsed_days_counterexample:
  "spec_days (validationConfig (diffToPrevious short_window_result)) = 1
   \<and> elapsed_days example_clock (validationConfig (diffToPrevious short_window_result)) = Some 0
   \<and> sublist ''**last 0 days**''
        (formatMarkdown example_clock short_window_result example_markdown_config)
   \<and> elapsed_days example_clock \<lparr>from' = 0, to' = - 200000\<rparr> = Some (- 2)"
  by code_simp

text \<open>
  C4. For caller strings that do not themselves contain the text, the Markdown document
  contains the statement "Found **no breaking changes**." exactly when no change has type
  FAILURE; when some change has, it contains the number of FAILURE changes together with
  the number of affected operations.
\<close>

theorem markdown_breaking_statement:
  assumes "\<not> sublist ''Found **no breaking changes**.'' (tag c)"
    and "\<not> sublist ''Found **no breaking changes**.'' (service_name c)"
    and "\<not> sublist ''Found **no breaking changes**.'' (template_null (targetUrl r))"
  shows "(sublist ''Found **no breaking changes**.'' (formatMarkdown clock r c)
            \<longleftrightarrow> breakingCount r = 0)
         \<and> (0 < breakingCount r \<longrightarrow>
               sublist (''Found **'' @ show_nat (breakingCount r)
                        @ '' breaking changes** that would affect **''
                        @ show_nat (length (affectedQueries (diffToPrevious r)))
                        @ '' operations**'')
                 (formatMarkdown clock r c))"
proof (intro conjI)
  show "sublist ''Found **no breaking changes**.'' (formatMarkdown clock r c)
            \<longleftrightarrow> breakingCount r = 0"
    unfolding formatMarkdown_sublist [OF needle_none_clean]
    using assms
    by (simp only: needle_none_fixed simp_thms if_True if_False split: if_split option.split)
      simp
  show "0 < breakingCount r \<longrightarrow>
               sublist (''Found **'' @ show_nat (breakingCount r)
                        @ '' breaking changes** that would affect **''
                        @ show_nat (length (affectedQueries (diffToPrevious r)))
                        @ '' operations**'')
                 (formatMarkdown clock r c)"
    using formatMarkdown_found by blast
qed

theorem markdown_breaking_statement_witness:
  "\<not> sublist ''Found **no breaking changes**.'' (tag example_markdown_config)
   \<and> \<not> sublist ''Found **no breaking changes**.'' (service_name example_markdown_config)
   \<and> \<not> sublist ''Found **no breaking changes**.''
         (template_null (targetUrl (example_result example_url [failure_change])))
   \<and> 0 < breakingCount (example_result example_url [failure_change])
   \<and> \<not> sublist ''Found **no breaking changes**.''
         (formatMarkdown example_clock (example_result example_url [failure_change]) example_markdown_config)
   \<and> sublist ''Found **1 breaking changes** that would affect **3 operations**''
         (formatMarkdown example_clock (example_result example_url [failure_change]) example_markdown_config)"
proof -
  have h1: "\<not> sublist ''Found **no breaking changes**.'' (tag example_markdown_config)"
    by code_simp
  have h2: "\<not> sublist ''Found **no breaking changes**.'' (service_name example_markdown_config)"
    by code_simp
  have h3: "\<not> sublist ''Found **no breaking changes**.''
              (template_null (targetUrl (example_result example_url [failure_change])))"
    by code_simp
  have k: "breakingCount (example_result example_url [failure_change]) = 1"
    by code_simp
  have m: "length (affectedQueries (diffToPrevious (example_result example_url [failure_change])))
             = 3"
    by code_simp
  have s: "show_nat 1 = ''1''" "show_nat 3 = ''3''"
    by code_simp+
  show ?thesis
    using markdown_breaking_statement [OF h1 h2 h3, of example_clock] h1 h2 h3
    unfolding k m s by simp
qed


lemma table_mode_omits_missing_link:
  "fst (report example_chalk example_clock
          \<lparr>ctx_gitContext = None, ctx_checkSchemaResult = example_result None [notice_change],
           ctx_config = example_config (Some ''my-service''),
           ctx_shouldOutputJson = False, ctx_shouldOutputMarkdown = False\<rparr>)
     = [Log [newline],
        Table [[(''type'', ''NOTICE''), (''code'', ''FIELD_ADDED''),
                (''description'', ''field added'')]] table_columns,
        Log [newline]]"
  by (simp add: report_def example_result_def notice_change_def truthy_def formatChange_def
        Let_def)

text \<open>
  C5. The spec asks for the reference link to be left out when the result has no
  \<^verbatim>\<open>targetUrl\<close>. The template interpolates the value without a test: for a null
  \<^verbatim>\<open>targetUrl\<close> the document still ends with the link line, pointing at the word null.
  Table mode tests the value and leaves the line out.
\<close>

theorem markdown_null_target_link:
  "targetUrl (example_result None [failure_change]) = None
   \<and> suffix (pict_link @ '' [View your service check details](null).'' @ [newline])
        (formatMarkdown example_clock (example_result None [failure_change]) example_markdown_config)"
  by code_simp

section \<open>JSON mode\<close>

text \<open>Whitespace and numbers.\<close>

lemma skip_ws_Nil: "skip_ws [] = []"
  by (simp add: skip_ws_def)

lemma skip_ws_ws:
  assumes "\<forall>c \<in> set w. is_ws c" and "\<not> is_ws c"
  shows "skip_ws (w @ c # cs) = c # cs"
  using assms unfolding skip_ws_def by (induction w) simp_all

lemma skip_ws_Cons: "\<not> is_ws c \<Longrightarrow> skip_ws (c # cs) = c # cs"
  by (simp add: skip_ws_def)

lemma digit_table:
  "\<forall>k \<in> set [0..<10]. is_digit (''0123456789'' ! k) \<and> digit_val (''0123456789'' ! k) = k
      \<and> (''0123456789'' ! k = CHR ''0'' \<longrightarrow> k = 0)"
  by code_simp

lemma digit_nth:
  assumes "k < 10"
  shows "is_digit (''0123456789'' ! k)" and "digit_val (''0123456789'' ! k) = k"
    and "''0123456789'' ! k = CHR ''0'' \<Longrightarrow> k = 0"
  using digit_table assms by auto

lemma show_nat_is_digit: "c \<in> set (show_nat n) \<Longrightarrow> is_digit c"
proof (induction n arbitrary: c rule: show_nat.induct)
  case (1 n)
  show ?case
  proof (cases "n < 10")
    case True
    then have "show_nat n = [''0123456789'' ! n]"
      by (subst show_nat.simps) simp
    with "1.prems" True show ?thesis
      by (simp add: digit_nth(1))
  next
    case False
    then have eq: "show_nat n = show_nat (n div 10) @ [''0123456789'' ! (n mod 10)]"
      by (subst show_nat.simps) simp
    have "is_digit (''0123456789'' ! (n mod 10))"
      by (rule digit_nth(1)) simp
    with "1.prems" "1.IH" [OF False] eq show ?thesis
      by auto
  qed
qed

lemma read_nat_snoc: "read_nat (ds @ [d]) = 10 * read_nat ds + digit_val d"
  by (simp add: read_nat_def)

lemma read_nat_show_nat: "read_nat (show_nat n) = n"
proof (induction n rule: show_nat.induct)
  case (1 n)
  show ?case
  proof (cases "n < 10")
    case True
    then have "show_nat n = [''0123456789'' ! n]"
      by (subst show_nat.simps) simp
    with True show ?thesis
      by (simp add: read_nat_def digit_nth(2))
  next
    case False
    then have eq: "show_nat n = show_nat (n div 10) @ [''0123456789'' ! (n mod 10)]"
      by (subst show_nat.simps) simp
    have "digit_val (''0123456789'' ! (n mod 10)) = n mod 10"
      by (rule digit_nth(2)) simp
    with "1.IH" [OF False] eq show ?thesis
      by (simp add: read_nat_snoc)
  qed
qed

lemma show_nat_hd_nonzero: "0 < n \<Longrightarrow> hd (show_nat n) \<noteq> CHR ''0''"
proof (induction n rule: show_nat.induct)
  case (1 n)
  show ?case
  proof (cases "n < 10")
    case True
    then have "show_nat n = [''0123456789'' ! n]"
      by (subst show_nat.simps) simp
    with True "1.prems" show ?thesis
      using digit_nth(3) [of n] by auto
  next
    case False
    then have eq: "show_nat n = show_nat (n div 10) @ [''0123456789'' ! (n mod 10)]"
      by (subst show_nat.simps) simp
    from False have "0 < n div 10" by simp
    with "1.IH" [OF False] have "hd (show_nat (n div 10)) \<noteq> CHR ''0''"
      by simp
    with eq show ?thesis
      by (simp add: show_nat_nonempty)
  qed
qed

lemma show_nat_no_leading_zero:
  "\<not> (hd (show_nat n) = CHR ''0'' \<and> 1 < length (show_nat n))"
proof (cases "n = 0")
  case True
  have "show_nat 0 = ''0''"
    by (subst show_nat.simps) simp
  with True show ?thesis by simp
next
  case False
  then show ?thesis
    using show_nat_hd_nonzero [of n] by simp
qed

lemma ok_rest_digits:
  assumes "ok_rest rest"
  shows "takeWhile is_digit (show_nat n @ rest) = show_nat n"
    and "dropWhile is_digit (show_nat n @ rest) = rest"
    and "\<not> (rest \<noteq> [] \<and> hd rest \<in> set ''.eE'')"
proof -
  have stop: "rest = [] \<or> \<not> is_digit (hd rest)"
    using assms by (auto simp: ok_rest_def is_digit_def newline_def)
  then have tw: "takeWhile is_digit rest = []" and dw: "dropWhile is_digit rest = rest"
    by (cases rest; simp)+
  show "takeWhile is_digit (show_nat n @ rest) = show_nat n"
    using tw by (simp add: takeWhile_append2 show_nat_is_digit)
  show "dropWhile is_digit (show_nat n @ rest) = rest"
    using dw by (simp add: dropWhile_append2 show_nat_is_digit)
  show "\<not> (rest \<noteq> [] \<and> hd rest \<in> set ''.eE'')"
    using assms by (auto simp: ok_rest_def newline_def)
qed

lemma parse_number_nat:
  assumes "ok_rest rest"
  shows "parse_number (show_nat n @ rest) = Some (int n, rest)"
proof -
  have hd: "hd (show_nat n @ rest) = hd (show_nat n)"
    by (simp add: show_nat_nonempty)
  have "hd (show_nat n) \<in> set (show_nat n)"
    by (simp add: show_nat_nonempty)
  then have "is_digit (hd (show_nat n))"
    by (rule show_nat_is_digit)
  then have nominus: "hd (show_nat n) \<noteq> CHR ''-''"
    by (auto simp: is_digit_def)
  show ?thesis
    using show_nat_no_leading_zero [of n]
    by (simp add: parse_number_def Let_def hd nominus ok_rest_digits [OF assms]
          show_nat_nonempty read_nat_show_nat del: set_simps list.set)
qed

lemma parse_number_show_int:
  assumes "ok_rest rest"
  shows "parse_number (show_int i @ rest) = Some (i, rest)"
proof (cases "i < 0")
  case True
  then have eq: "show_int i @ rest = CHR ''-'' # (show_nat (nat (- i)) @ rest)"
    by (simp add: show_int_def)
  show ?thesis
    unfolding eq using True show_nat_no_leading_zero [of "nat (- i)"]
    by (simp add: parse_number_def Let_def ok_rest_digits [OF assms]
          show_nat_nonempty read_nat_show_nat del: set_simps list.set)
next
  case False
  then have "show_int i = show_nat (nat i)"
    by (simp add: show_int_def)
  then show ?thesis
    using parse_number_nat [OF assms, of "nat i"] False by simp
qed

text \<open>Strings: every quoted character reads back as itself.\<close>

lemma hex_table:
  "\<forall>k \<in> set [0..<16]. hex_val (''0123456789abcdef'' ! k) = Some k"
  by code_simp

lemma hex_val_hex_digit: "hex_val (hex_digit k) = Some (k mod 16)"
proof -
  have "k mod 16 \<in> set [0..<16]" by simp
  with hex_table show ?thesis
    unfolding hex_digit_def by blast
qed

lemma unicode_escape_control:
  fixes c :: char
  assumes "(of_char c :: nat) < 32"
  shows "unicode_escape (CHR ''0'') (CHR ''0'') (hex_digit (of_char c div 16)) (hex_digit (of_char c))
           = Some c"
proof -
  define n where "n = (of_char c :: nat)"
  have zero: "hex_val (CHR ''0'') = Some 0"
    by code_simp
  have small: "n div 16 mod 16 = n div 16"
    using assms unfolding n_def by simp
  have "n div 16 * 16 + n mod 16 = n"
    by simp
  moreover have "n < 256"
    using assms unfolding n_def by simp
  moreover have "char_of n = c"
    unfolding n_def by simp
  ultimately show ?thesis
    unfolding unicode_escape_def n_def [symmetric]
    by (simp add: zero hex_val_hex_digit small)
qed

lemma parse_quote_char:
  "parse_chars (quote_char c @ tail)
     = (case parse_chars tail of None \<Rightarrow> None | Some (s, rest) \<Rightarrow> Some (c # s, rest))"
proof -
  consider "c = CHR 0x08" | "c = CHR 0x09" | "c = CHR 0x0A" | "c = CHR 0x0C" | "c = CHR 0x0D"
    | "c = CHR 0x22" | "c = CHR 0x5C"
    | "c \<notin> {CHR 0x08, CHR 0x09, CHR 0x0A, CHR 0x0C, CHR 0x0D, CHR 0x22, CHR 0x5C}"
      "(of_char c :: nat) < 32"
    | "c \<notin> {CHR 0x08, CHR 0x09, CHR 0x0A, CHR 0x0C, CHR 0x0D, CHR 0x22, CHR 0x5C}"
      "\<not> (of_char c :: nat) < 32"
    by blast
  then show ?thesis
  proof cases
    case 8
    then have q: "quote_char c = [CHR 0x5C, CHR ''u'', CHR ''0'', CHR ''0'',
              hex_digit (of_char c div 16), hex_digit (of_char c)]"
      by (simp add: quote_char_def)
    show ?thesis
      unfolding q by (simp add: unicode_escape_control [OF 8(2)])
  next
    case 9
    then have q: "quote_char c = [c]"
      by (simp add: quote_char_def)
    show ?thesis
      unfolding q using 9 by simp
  qed (auto simp: quote_char_def simple_escape_def)
qed

lemma parse_chars_quoted:
  "parse_chars (concat (map quote_char s) @ CHR 0x22 # rest) = Some (s, rest)"
  by (induction s) (simp_all add: parse_quote_char)

lemma quote_json_string_eq:
  "quote_json_string s @ rest = CHR 0x22 # concat (map quote_char s) @ CHR 0x22 # rest"
  by (simp add: quote_json_string_def)

text \<open>Values: the first character of a rendering, then arrays and objects.\<close>

lemma is_ws_simps:
  "is_ws newline" "is_ws (CHR '' '')" "\<not> is_ws (CHR '']'')" "\<not> is_ws (CHR ''}'')"
  "\<not> is_ws (CHR '','')" "\<not> is_ws (CHR '':'')" "\<not> is_ws (CHR 0x22)" "\<not> is_ws (CHR ''['')"
  "\<not> is_ws (CHR ''{'')" "\<not> is_ws (CHR ''n'')"
  by (simp_all add: is_ws_def newline_def)

lemma ok_rest_simps:
  "ok_rest []" "ok_rest (newline # r)" "ok_rest (CHR '','' # r)"
  by (simp_all add: ok_rest_def)

lemma show_int_head:
  obtains c cs where "show_int i = c # cs" and "c \<in> set ''-0123456789''"
proof -
  obtain c cs where eq: "show_int i = c # cs"
    using show_int_nonempty [of i] by (cases "show_int i") auto
  then have "c \<in> set (show_int i)" by simp
  with show_int_chars [of i] have "c \<in> set ''-0123456789''" by blast
  with eq that show ?thesis by blast
qed

lemma number_char:
  assumes "c \<in> set ''-0123456789''"
  shows "\<not> is_ws c" and "c \<noteq> CHR ''n''" and "c \<noteq> CHR 0x22" and "c \<noteq> CHR ''[''"
    and "c \<noteq> CHR ''{''" and "c \<noteq> CHR '']''" and "c \<noteq> CHR ''}''"
  using assms by (auto simp: is_ws_def)

lemma stringify_head:
  obtains c cs where "stringify ind v = c # cs" and "\<not> is_ws c" and "c \<noteq> CHR '']''"
proof (cases v)
  case JNull
  then have "stringify ind v = CHR ''n'' # ''ull''" by simp
  with that show ?thesis by (simp add: is_ws_simps)
next
  case (JNumber i)
  obtain c cs where "show_int i = c # cs" and "c \<in> set ''-0123456789''"
    by (rule show_int_head)
  with JNumber that number_char [of c] show ?thesis by simp
next
  case (JString s)
  then have "stringify ind v = CHR 0x22 # concat (map quote_char s) @ [CHR 0x22]"
    by (simp add: quote_json_string_def)
  with that show ?thesis by (simp add: is_ws_simps)
next
  case (JArray vs)
  then obtain cs where "stringify ind v = CHR ''['' # cs"
    by (cases "vs = []") simp_all
  with that show ?thesis by (simp add: is_ws_simps)
next
  case (JObject kvs)
  then obtain cs where "stringify ind v = CHR ''{'' # cs"
    by (cases "kvs = []") simp_all
  with that show ?thesis by (simp add: is_ws_simps)
qed

lemma parse_elements_join:
  assumes IH: "\<And>v ind w rest f. v \<in> set vs \<Longrightarrow> \<forall>c\<in>set ind. is_ws c \<Longrightarrow> \<forall>c\<in>set w. is_ws c \<Longrightarrow>
                 ok_rest rest \<Longrightarrow> parse_fuel v \<le> f \<Longrightarrow>
                 parse_value f (w @ stringify ind v @ rest) = Some (v, rest)"
    and "vs \<noteq> []"
    and "\<forall>c\<in>set ind'. is_ws c" and "\<forall>c\<in>set w. is_ws c" and "\<forall>c\<in>set ind0. is_ws c"
    and "sum_list (map parse_fuel vs) + length vs \<le> f"
  shows "parse_elements f
           (w @ join_lines ind' (map (stringify ind') vs) @ newline # ind0 @ CHR '']'' # rest)
         = Some (vs, rest)"
  using assms
proof (induction vs arbitrary: w f)
  case Nil
  then show ?case by simp
next
  case (Cons v vs)
  from Cons.prems(6) obtain f' where f: "f = Suc f'"
    by (cases f) auto
  have fv: "parse_fuel v \<le> f'"
    using Cons.prems(6) f by simp
  show ?case
  proof (cases vs)
    case Nil
    define R where "R = newline # ind0 @ CHR '']'' # rest"
    have "parse_value f' (w @ stringify ind' v @ R) = Some (v, R)"
      using Cons.prems(1) [of v ind' w R f'] Cons.prems(3,4) fv
      by (simp add: R_def ok_rest_simps)
    moreover have "skip_ws R = CHR '']'' # rest"
      unfolding R_def
      using skip_ws_ws [of "newline # ind0" "CHR '']''" rest] Cons.prems(5)
      by (simp add: is_ws_simps)
    ultimately show ?thesis
      unfolding f using Nil by (simp add: R_def)
  next
    case (Cons v2 vs2)
    define R where
      "R = CHR '','' # newline # ind' @ join_lines ind' (map (stringify ind') vs)
             @ newline # ind0 @ CHR '']'' # rest"
    have doc: "w @ join_lines ind' (map (stringify ind') (v # vs))
                  @ newline # ind0 @ CHR '']'' # rest
                = w @ stringify ind' v @ R"
      unfolding R_def using Cons by simp
    have pv: "parse_value f' (w @ stringify ind' v @ R) = Some (v, R)"
      using Cons.prems(1) [of v ind' w R f'] Cons.prems(3,4) fv
      by (simp add: R_def ok_rest_simps)
    have sk: "skip_ws R = R"
      unfolding R_def by (simp add: skip_ws_Cons is_ws_simps)
    have "sum_list (map parse_fuel vs) + length vs \<le> f'"
      using Cons.prems(6) f by simp
    then have "parse_elements f'
                 ((newline # ind') @ join_lines ind' (map (stringify ind') vs)
                    @ newline # ind0 @ CHR '']'' # rest)
               = Some (vs, rest)"
      using Cons.IH [of "newline # ind'" f'] Cons.prems(1,3,5) Cons
      by (simp add: is_ws_simps)
    then show ?thesis
      unfolding doc f using pv sk by (simp add: R_def)
  qed
qed

lemma parse_members_join:
  assumes IH: "\<And>k v ind w rest f. (k, v) \<in> set kvs \<Longrightarrow> \<forall>c\<in>set ind. is_ws c \<Longrightarrow>
                 \<forall>c\<in>set w. is_ws c \<Longrightarrow> ok_rest rest \<Longrightarrow> parse_fuel v \<le> f \<Longrightarrow>
                 parse_value f (w @ stringify ind v @ rest) = Some (v, rest)"
    and "kvs \<noteq> []"
    and "\<forall>c\<in>set ind'. is_ws c" and "\<forall>c\<in>set w. is_ws c" and "\<forall>c\<in>set ind0. is_ws c"
    and "sum_list (map (\<lambda>kv. parse_fuel (snd kv)) kvs) + length kvs \<le> f"
  shows "parse_members f
           (w @ join_lines ind'
                  (map (\<lambda>kv. quote_json_string (fst kv) @ '': '' @ stringify ind' (snd kv)) kvs)
              @ newline # ind0 @ CHR ''}'' # rest)
         = Some (kvs, rest)"
  using assms
proof (induction kvs arbitrary: w f)
  case Nil
  then show ?case by simp
next
  case (Cons kv kvs)
  note outer_IH = Cons.IH and outer_prems = Cons.prems
  obtain k v where kv: "kv = (k, v)"
    by (cases kv) auto
  from Cons.prems(6) obtain f' where f: "f = Suc f'"
    by (cases f) auto
  have fv: "parse_fuel v \<le> f'"
    using Cons.prems(6) f kv by simp
  have key: "skip_ws (w @ quote_json_string k @ X)
               = CHR 0x22 # concat (map quote_char k) @ CHR 0x22 # X" for X
    using skip_ws_ws [of w "CHR 0x22" "concat (map quote_char k) @ CHR 0x22 # X"] Cons.prems(4)
    by (simp add: quote_json_string_def is_ws_simps)
  have colon: "skip_ws (CHR '':'' # X) = CHR '':'' # X" for X
    by (simp add: skip_ws_Cons is_ws_simps)
  show ?case
  proof (cases kvs)
    case Nil
    define R where "R = newline # ind0 @ CHR ''}'' # rest"
    have pv: "parse_value f' ([CHR '' ''] @ stringify ind' v @ R) = Some (v, R)"
      using Cons.prems(1) [of k v ind' "[CHR '' '']" R f'] Cons.prems(3) fv kv
      by (simp add: R_def ok_rest_simps is_ws_simps)
    have sk: "skip_ws R = CHR ''}'' # rest"
      unfolding R_def
      using skip_ws_ws [of "newline # ind0" "CHR ''}''" rest] Cons.prems(5)
      by (simp add: is_ws_simps)
    have "parse_members (Suc f')
            (w @ quote_json_string k @ '': '' @ stringify ind' v @ R) = Some ([(k, v)], rest)"
      using pv sk by (simp add: key parse_chars_quoted colon)
    then show ?thesis
      unfolding f using Nil kv by (simp add: R_def)
  next
    case (Cons kv2 kvs2)
    define J where
      "J = join_lines ind'
             (map (\<lambda>kv. quote_json_string (fst kv) @ '': '' @ stringify ind' (snd kv)) kvs)"
    define R where "R = CHR '','' # newline # ind' @ J @ newline # ind0 @ CHR ''}'' # rest"
    have doc: "w @ join_lines ind'
                  (map (\<lambda>kv. quote_json_string (fst kv) @ '': '' @ stringify ind' (snd kv))
                     (kv # kvs))
                @ newline # ind0 @ CHR ''}'' # rest
              = w @ quote_json_string k @ '': '' @ stringify ind' v @ R"
      unfolding R_def J_def using Cons kv by simp
    have pv: "parse_value f' ([CHR '' ''] @ stringify ind' v @ R) = Some (v, R)"
      using Cons.prems(1) [of k v ind' "[CHR '' '']" R f'] Cons.prems(3) fv kv
      by (simp add: R_def ok_rest_simps is_ws_simps)
    have sk: "skip_ws R = R"
      unfolding R_def by (simp add: skip_ws_Cons is_ws_simps)
    have "parse_members f' ((newline # ind') @ J @ newline # ind0 @ CHR ''}'' # rest)
               = Some (kvs, rest)"
      unfolding J_def
    proof (rule outer_IH)
      show "parse_value f (w @ stringify ind v @ rest) = Some (v, rest)"
        if "(k, v) \<in> set kvs" "\<forall>c\<in>set ind. is_ws c" "\<forall>c\<in>set w. is_ws c" "ok_rest rest"
          "parse_fuel v \<le> f" for k v ind w rest f
        using outer_prems(1) [of k v ind w rest f] that by simp
      show "kvs \<noteq> []" using Cons by simp
      show "\<forall>c\<in>set ind'. is_ws c" by (rule outer_prems(3))
      show "\<forall>c\<in>set (newline # ind'). is_ws c"
        using outer_prems(3) by (simp add: is_ws_simps)
      show "\<forall>c\<in>set ind0. is_ws c" by (rule outer_prems(5))
      show "sum_list (map (\<lambda>kv. parse_fuel (snd kv)) kvs) + length kvs \<le> f'"
        using outer_prems(6) f by simp
    qed
    then have "parse_members (Suc f')
                 (w @ quote_json_string k @ '': '' @ stringify ind' v @ R)
               = Some ((k, v) # kvs, rest)"
      using pv sk by (simp add: key parse_chars_quoted colon R_def)
    then show ?thesis
      unfolding doc f using kv by simp
  qed
qed

lemma join_lines_head:
  "xs \<noteq> [] \<Longrightarrow> \<exists>more. join_lines ind xs = hd xs @ more"
proof (cases xs)
  case Nil
  assume "xs \<noteq> []"
  with Nil show ?thesis by simp
next
  case (Cons x ys)
  then show ?thesis
    by (cases ys) simp_all
qed

lemma parse_value_stringify:
  assumes "\<forall>c\<in>set ind. is_ws c" and "\<forall>c\<in>set w. is_ws c" and "ok_rest rest"
    and "parse_fuel v \<le> f"
  shows "parse_value f (w @ stringify ind v @ rest) = Some (v, rest)"
  using assms
proof (induction v arbitrary: ind w rest f)
  case JNull
  then obtain f' where f: "f = Suc f'"
    by (cases f) auto
  have "skip_ws (w @ stringify ind JNull @ rest) = CHR ''n'' # ''ull'' @ rest"
    using skip_ws_ws [of w "CHR ''n''" "''ull'' @ rest"] JNull.prems(2)
    by (simp add: is_ws_simps)
  then show ?case
    unfolding f by simp
next
  case (JNumber i)
  then obtain f' where f: "f = Suc f'"
    by (cases f) auto
  obtain c cs where eq: "show_int i = c # cs" and c: "c \<in> set ''-0123456789''"
    by (rule show_int_head)
  have "skip_ws (w @ stringify ind (JNumber i) @ rest) = c # cs @ rest"
    using skip_ws_ws [of w c "cs @ rest"] JNumber.prems(2) number_char(1) [OF c] eq
    by simp
  moreover have "parse_number (c # cs @ rest) = Some (i, rest)"
    using parse_number_show_int [OF JNumber.prems(3), of i] eq by simp
  ultimately show ?case
    unfolding f using number_char [OF c] by simp
next
  case (JString s)
  then obtain f' where f: "f = Suc f'"
    by (cases f) auto
  have "skip_ws (w @ stringify ind (JString s) @ rest)
          = CHR 0x22 # concat (map quote_char s) @ CHR 0x22 # rest"
    using skip_ws_ws [of w "CHR 0x22" "concat (map quote_char s) @ CHR 0x22 # rest"]
      JString.prems(2)
    by (simp add: quote_json_string_def is_ws_simps)
  then show ?case
    unfolding f by (simp add: parse_chars_quoted)
next
  case (JArray vs)
  then obtain f' where f: "f = Suc f'"
    by (cases f) auto
  show ?case
  proof (cases "vs = []")
    case True
    have "skip_ws (w @ stringify ind (JArray vs) @ rest) = CHR ''['' # CHR '']'' # rest"
      using skip_ws_ws [of w "CHR ''[''" "CHR '']'' # rest"] JArray.prems(2) True
      by (simp add: is_ws_simps)
    then show ?thesis
      unfolding f using True by (simp add: skip_ws_Cons is_ws_simps)
  next
    case False
    define ind' where "ind' = ind @ ''  ''"
    define body where
      "body = (newline # ind') @ join_lines ind' (map (stringify ind') vs)
                @ newline # ind @ CHR '']'' # rest"
    have ws': "\<forall>c\<in>set ind'. is_ws c"
      unfolding ind'_def using JArray.prems(1) by (simp add: is_ws_simps)
    have sk: "skip_ws (w @ stringify ind (JArray vs) @ rest) = CHR ''['' # body"
      using skip_ws_ws [of w "CHR ''[''" body] JArray.prems(2) False
      by (simp add: is_ws_simps body_def ind'_def)
    obtain more where "join_lines ind' (map (stringify ind') vs)
                         = stringify ind' (hd vs) @ more"
      using join_lines_head [of "map (stringify ind') vs" ind'] False
      by (auto simp: hd_map)
    moreover obtain c cs where "stringify ind' (hd vs) = c # cs" "\<not> is_ws c" "c \<noteq> CHR '']''"
      by (rule stringify_head)
    ultimately have "skip_ws body = c # cs @ more @ newline # ind @ CHR '']'' # rest"
      unfolding body_def
      using skip_ws_ws [of "newline # ind'" c "cs @ more @ newline # ind @ CHR '']'' # rest"] ws'
      by (simp add: is_ws_simps)
    with \<open>c \<noteq> CHR '']''\<close> have nonempty: "hd (skip_ws body) \<noteq> CHR '']''"
      by simp
    have "parse_elements f' body = Some (vs, rest)"
      unfolding body_def
    proof (rule parse_elements_join)
      show "parse_value f (w @ stringify ind v @ rest) = Some (v, rest)"
        if "v \<in> set vs" "\<forall>c\<in>set ind. is_ws c" "\<forall>c\<in>set w. is_ws c" "ok_rest rest"
          "parse_fuel v \<le> f" for v ind w rest f
        using that by (rule JArray.IH)
      show "vs \<noteq> []" by (rule False)
      show "\<forall>c\<in>set ind'. is_ws c" by (rule ws')
      show "\<forall>c\<in>set (newline # ind'). is_ws c"
        using ws' by (simp add: is_ws_simps)
      show "\<forall>c\<in>set ind. is_ws c" by (rule JArray.prems(1))
      show "sum_list (map parse_fuel vs) + length vs \<le> f'"
        using JArray.prems(4) f by simp
    qed
    then show ?thesis
      unfolding f using sk nonempty by simp
  qed
next
  case (JObject kvs)
  then obtain f' where f: "f = Suc f'"
    by (cases f) auto
  show ?case
  proof (cases "kvs = []")
    case True
    have "skip_ws (w @ stringify ind (JObject kvs) @ rest) = CHR ''{'' # CHR ''}'' # rest"
      using skip_ws_ws [of w "CHR ''{''" "CHR ''}'' # rest"] JObject.prems(2) True
      by (simp add: is_ws_simps)
    then show ?thesis
      unfolding f using True by (simp add: skip_ws_Cons is_ws_simps)
  next
    case False
    define ind' where "ind' = ind @ ''  ''"
    define member where
      "member = (\<lambda>kv. quote_json_string (fst kv) @ '': '' @ stringify ind' (snd kv))"
    define body where
      "body = (newline # ind') @ join_lines ind' (map member kvs)
                @ newline # ind @ CHR ''}'' # rest"
    have ws': "\<forall>c\<in>set ind'. is_ws c"
      unfolding ind'_def using JObject.prems(1) by (simp add: is_ws_simps)
    have sk: "skip_ws (w @ stringify ind (JObject kvs) @ rest) = CHR ''{'' # body"
      using skip_ws_ws [of w "CHR ''{''" body] JObject.prems(2) False
      by (simp add: is_ws_simps body_def ind'_def member_def)
    obtain more where "join_lines ind' (map member kvs) = member (hd kvs) @ more"
      using join_lines_head [of "map member kvs" ind'] False
      by (auto simp: hd_map)
    then have "body = (newline # ind') @ CHR 0x22
                 # (concat (map quote_char (fst (hd kvs))) @ CHR 0x22 # '': ''
                    @ stringify ind' (snd (hd kvs)) @ more @ newline # ind @ CHR ''}'' # rest)"
      unfolding body_def member_def by (simp add: quote_json_string_def)
    then have "hd (skip_ws body) = CHR 0x22"
      using skip_ws_ws [of "newline # ind'" "CHR 0x22"] ws'
      by (simp add: is_ws_simps)
    then have nonempty: "hd (skip_ws body) \<noteq> CHR ''}''"
      by simp
    have "parse_members f' body = Some (kvs, rest)"
      unfolding body_def member_def
    proof (rule parse_members_join)
      show "parse_value f (w @ stringify ind v @ rest) = Some (v, rest)"
        if "(k, v) \<in> set kvs" "\<forall>c\<in>set ind. is_ws c" "\<forall>c\<in>set w. is_ws c" "ok_rest rest"
          "parse_fuel v \<le> f" for k v ind w rest f
        using JObject.IH [of "(k, v)" v ind w rest f] that by simp
      show "kvs \<noteq> []" by (rule False)
      show "\<forall>c\<in>set ind'. is_ws c" by (rule ws')
      show "\<forall>c\<in>set (newline # ind'). is_ws c"
        using ws' by (simp add: is_ws_simps)
      show "\<forall>c\<in>set ind. is_ws c" by (rule JObject.prems(1))
      show "sum_list (map (\<lambda>kv. parse_fuel (snd kv)) kvs) + length kvs \<le> f'"
        using JObject.prems(4) f by simp
    qed
    then show ?thesis
      unfolding f using sk nonempty by simp
  qed
qed

lemma JSON_parse_stringify:
  "parse_fuel v \<le> fuel \<Longrightarrow> JSON_parse fuel (JSON_stringify v) = Some v"
  using parse_value_stringify [of "[]" "[]" "[]" v fuel]
  by (simp add: JSON_parse_def JSON_stringify_def ok_rest_simps skip_ws_Nil)

text \<open>Decoding the rendered object.\<close>

lemma ChangeType_of_str_inverse: "ChangeType_of_str (ChangeType_str t) = Some t"
  by (cases t) (simp_all add: ChangeType_of_str_def)

lemma decode_change_json: "decode_change (change_json c) = Some c"
  by (simp add: decode_change_def change_json_def json_field_def ChangeType_of_str_inverse)

lemma decode_all_json: "decode_all (map change_json cs) = Some cs"
  by (induction cs) (simp_all add: decode_change_json)

lemma decode_window_json: "decode_window (validationConfig_json vc) = Some vc"
  by (simp add: decode_window_def validationConfig_json_def json_field_def)

lemma decode_result_json: "decode_result (result_json url cs vc) = Some (url, cs, vc)"
  by (cases url)
     (simp_all add: decode_result_def result_json_def json_field_def decode_all_json
        decode_window_json)

lemma json_keys_result:
  "json_keys (result_json url cs vc) = [''targetUrl'', ''changes'', ''validationConfig'']"
  by (simp add: json_keys_def result_json_def)

text \<open>
  C6. In JSON mode the whole output of the run is one document, the rendering of the
  object with exactly the keys targetUrl, changes and validationConfig. Read back with
  enough fuel, the document parses to that same JSON value, and decoding the value gives
  the targetUrl, the full list of changes (each with its type, code and description) and
  the window, all unchanged.
\<close>

theorem json_mode_round_trip:
  assumes "task env cfg flags = (evs, Inr out)"
    and "ctx_shouldOutputJson out"
    and "url = targetUrl (ctx_checkSchemaResult out)"
    and "cs = changes (diffToPrevious (ctx_checkSchemaResult out))"
    and "vc = validationConfig (diffToPrevious (ctx_checkSchemaResult out))"
  shows "filter is_output (fst (run env chalk clock cfg flags))
           = [Log (JSON_stringify (result_json url cs vc))]
         \<and> (\<forall>fuel. parse_fuel (result_json url cs vc) \<le> fuel \<longrightarrow>
               JSON_parse fuel (JSON_stringify (result_json url cs vc))
                 = Some (result_json url cs vc))
         \<and> json_keys (result_json url cs vc) = [''targetUrl'', ''changes'', ''validationConfig'']
         \<and> decode_result (result_json url cs vc) = Some (url, cs, vc)"
proof (intro conjI)
  have quiet: "filter is_output evs = []"
    using assms(1) by (rule task_no_output)
  have "fst (run env chalk clock cfg flags) = evs @ [Log (JSON_stringify (result_json url cs vc))]"
    using assms by (simp add: run_def report_def)
  with quiet show "filter is_output (fst (run env chalk clock cfg flags))
           = [Log (JSON_stringify (result_json url cs vc))]"
    by (simp add: is_output_def)
  show "\<forall>fuel. parse_fuel (result_json url cs vc) \<le> fuel \<longrightarrow>
               JSON_parse fuel (JSON_stringify (result_json url cs vc))
                 = Some (result_json url cs vc)"
    by (simp add: JSON_parse_stringify)
  show "json_keys (result_json url cs vc) = [''targetUrl'', ''changes'', ''validationConfig'']"
    by (rule json_keys_result)
  show "decode_result (result_json url cs vc) = Some (url, cs, vc)"
    by (rule decode_result_json)
qed

theorem json_mode_round_trip_witness:
  "task (example_env (Inr None) [failure_change, notice_change])
        (example_config (Some ''my-service'')) (example_flags (Some True) None)
     = ([ResolveSchema ''current'', GitInfo,
         CheckSchema \<lparr>vars_id = Some ''my-service'', vars_schema = ''type Query { a: Int }'',
                      vars_tag = None, vars_gitContext = None, vars_frontend = None,
                      vars_historicParameters = None\<rparr>],
        Inr \<lparr>ctx_gitContext = None,
             ctx_checkSchemaResult = example_result example_url [failure_change, notice_change],
             ctx_config = example_config (Some ''my-service''),
             ctx_shouldOutputJson = True, ctx_shouldOutputMarkdown = False\<rparr>)
   \<and> parse_fuel (result_json example_url [failure_change, notice_change]
                   \<lparr>from' = - 604800, to' = 0\<rparr>) \<le> 100
   \<and> filter is_output
         (fst (run (example_env (Inr None) [failure_change, notice_change]) example_chalk example_clock
                 (example_config (Some ''my-service'')) (example_flags (Some True) None)))
       = [Log (JSON_stringify (result_json example_url [failure_change, notice_change]
                                 \<lparr>from' = - 604800, to' = 0\<rparr>))]
   \<and> JSON_parse 100 (JSON_stringify (result_json example_url [failure_change, notice_change]
                                        \<lparr>from' = - 604800, to' = 0\<rparr>))
       = Some (result_json example_url [failure_change, notice_change]
                 \<lparr>from' = - 604800, to' = 0\<rparr>)
   \<and> decode_result (result_json example_url [failure_change, notice_change]
                       \<lparr>from' = - 604800, to' = 0\<rparr>)
       = Some (example_url, [failure_change, notice_change], \<lparr>from' = - 604800, to' = 0\<rparr>)"
proof -
  have fuel: "parse_fuel (result_json example_url [failure_change, notice_change]
                   \<lparr>from' = - 604800, to' = 0\<rparr>) \<le> 100"
    by code_simp
  have t: "task (example_env (Inr None) [failure_change, notice_change])
        (example_config (Some ''my-service'')) (example_flags (Some True) None)
     = ([ResolveSchema ''current'', GitInfo,
         CheckSchema \<lparr>vars_id = Some ''my-service'', vars_schema = ''type Query { a: Int }'',
                      vars_tag = None, vars_gitContext = None, vars_frontend = None,
                      vars_historicParameters = None\<rparr>],
        Inr \<lparr>ctx_gitContext = None,
             ctx_checkSchemaResult = example_result example_url [failure_change, notice_change],
             ctx_config = example_config (Some ''my-service''),
             ctx_shouldOutputJson = True, ctx_shouldOutputMarkdown = False\<rparr>)"
    using example_task [of "[failure_change, notice_change]" "Some True" None] by simp
  let ?out = "\<lparr>ctx_gitContext = None,
             ctx_checkSchemaResult = example_result example_url [failure_change, notice_change],
             ctx_config = example_config (Some ''my-service''),
             ctx_shouldOutputJson = True, ctx_shouldOutputMarkdown = False\<rparr>"
  have j: "ctx_shouldOutputJson ?out"
    by simp
  have u: "example_url = targetUrl (ctx_checkSchemaResult ?out)"
    by (simp add: example_result_def)
  have c: "[failure_change, notice_change] = changes (diffToPrevious (ctx_checkSchemaResult ?out))"
    by (simp add: example_result_def)
  have v: "\<lparr>from' = - 604800, to' = 0\<rparr>
             = validationConfig (diffToPrevious (ctx_checkSchemaResult ?out))"
    by (simp add: example_result_def)
  note T = json_mode_round_trip [OF t j u c v, of example_chalk example_clock]
  from T have T1: "filter is_output
         (fst (run (example_env (Inr None) [failure_change, notice_change]) example_chalk example_clock
                 (example_config (Some ''my-service'')) (example_flags (Some True) None)))
       = [Log (JSON_stringify (result_json example_url [failure_change, notice_change]
                                 \<lparr>from' = - 604800, to' = 0\<rparr>))]"
    by (rule conjunct1)
  from T fuel have T2: "JSON_parse 100 (JSON_stringify (result_json example_url
                          [failure_change, notice_change] \<lparr>from' = - 604800, to' = 0\<rparr>))
       = Some (result_json example_url [failure_change, notice_change]
                 \<lparr>from' = - 604800, to' = 0\<rparr>)"
    by blast
  from T have T3: "decode_result (result_json example_url [failure_change, notice_change]
                       \<lparr>from' = - 604800, to' = 0\<rparr>)
       = Some (example_url, [failure_change, notice_change], \<lparr>from' = - 604800, to' = 0\<rparr>)"
    by blast
  show ?thesis
    by (intro conjI t fuel T1 T2 T3)
qed

end
